theory Spec2Isabelle
  imports Main
begin

section \<open>Binary morphology of skimage/morphology/binary.py\<close>

text \<open>
  The module holds four operators (\<open>binary_erosion\<close>, \<open>binary_dilation\<close>,
  \<open>binary_opening\<close>, \<open>binary_closing\<close>) and the helper \<open>_iterate_binary_func\<close>
  that chains the steps of a decomposed footprint. The pixel work is done by
  \<open>scipy.ndimage.binary_erosion\<close> and \<open>scipy.ndimage.binary_dilation\<close>; the module decides
  which array is read, which array is written, which border value and which iteration count
  each call gets. Arrays are Python objects that the operators share by reference, so the
  embedding has an explicit store of arrays and records every call of the reducer.
\<close>

subsection \<open>Arrays\<close>

text \<open>
  A dense boolean array: its shape and its elements in row-major order, as NumPy lays out a
  C-contiguous array. An integer-coded image is read by its truth values.
\<close>

record ndarray =
  shape :: "nat list"
  data :: "bool list"

definition well_formed :: "ndarray \<Rightarrow> bool" where
  "well_formed a \<longleftrightarrow> length (data a) = prod_list (shape a)"

text \<open>All positions of an array of the given shape, in row-major order.\<close>

fun indices :: "nat list \<Rightarrow> int list list" where
  "indices [] = [[]]"
| "indices (n # ns) = concat (map (\<lambda>i. map ((#) (int i)) (indices ns)) [0..<n])"

fun in_bounds :: "nat list \<Rightarrow> int list \<Rightarrow> bool" where
  "in_bounds [] [] = True"
| "in_bounds (n # ns) (i # is) = (0 \<le> i \<and> i < int n \<and> in_bounds ns is)"
| "in_bounds _ _ = False"

text \<open>The flat position of a multi-index.\<close>

fun ravel :: "nat list \<Rightarrow> int list \<Rightarrow> nat" where
  "ravel (n # ns) (i # is) = nat i * prod_list ns + ravel ns is"
| "ravel _ _ = 0"

text \<open>
  The element at a position inside the array, and reading a position that may lie outside:
  inside, the element; outside, the border value.
\<close>

definition pixel :: "ndarray \<Rightarrow> int list \<Rightarrow> bool" where
  "pixel a p = data a ! ravel (shape a) p"

definition lookup :: "bool \<Rightarrow> ndarray \<Rightarrow> int list \<Rightarrow> bool" where
  "lookup border a p = (if in_bounds (shape a) p then pixel a p else border)"

definition vadd :: "int list \<Rightarrow> int list \<Rightarrow> int list" where
  "vadd p q = map2 (+) p q"

definition vsub :: "int list \<Rightarrow> int list \<Rightarrow> int list" where
  "vsub p q = map2 (-) p q"

subsection \<open>The neighbourhood reducer\<close>

text \<open>
  Modelled from the spec: the Neighborhood Reducer's reading of a structuring element. The
  reducer is \<open>scipy.ndimage\<close> and not part of this repository. The centre of a structuring
  element is the middle of each axis (size \<open>div 2\<close>); its offsets are the positions of its
  true elements relative to the centre.
\<close>

definition centre :: "ndarray \<Rightarrow> int list" where
  "centre F = map (\<lambda>n. int (n div 2)) (shape F)"

definition offsets :: "ndarray \<Rightarrow> int list list" where
  "offsets F = map (\<lambda>q. vsub q (centre F)) (filter (lookup False F) (indices (shape F)))"

text \<open>
  Modelled from the spec: one pass of the Neighborhood Reducer (\<open>scipy.ndimage\<close>, not part
  of this repository). One pass of erosion sets a position to the conjunction of the image
  over the footprint's neighbourhood of that position, one pass of dilation to the
  disjunction; a neighbour outside the array counts as the border value. Under dilation the
  neighbourhood is the footprint reflected through its centre, as SciPy applies it, so that
  dilating a single pixel stamps the footprint there.
\<close>

definition erode_pass :: "bool \<Rightarrow> ndarray \<Rightarrow> ndarray \<Rightarrow> ndarray" where
  "erode_pass border F X =
     \<lparr>shape = shape X,
      data = map (\<lambda>p. list_all (\<lambda>q. lookup border X (vadd p q)) (offsets F))
                 (indices (shape X))\<rparr>"

definition dilate_pass :: "bool \<Rightarrow> ndarray \<Rightarrow> ndarray \<Rightarrow> ndarray" where
  "dilate_pass border F X =
     \<lparr>shape = shape X,
      data = map (\<lambda>p. list_ex (\<lambda>q. lookup border X (vsub p q)) (offsets F))
                 (indices (shape X))\<rparr>"

datatype reduction = Erosion | Dilation

definition pass :: "reduction \<Rightarrow> bool \<Rightarrow> ndarray \<Rightarrow> ndarray \<Rightarrow> ndarray" where
  "pass r border F = (case r of Erosion \<Rightarrow> erode_pass border F | Dilation \<Rightarrow> dilate_pass border F)"

text \<open>
  Modelled from the spec: the reducer's iteration count. A count of at least 1 repeats the
  pass that many times. SciPy documents a count below 1 as "repeat until the result does
  not change anymore"; that loop need not end, so it is a partial function and \<open>None\<close>
  stands for a call that never returns.
\<close>

partial_function (option) until_unchanged :: "(ndarray \<Rightarrow> ndarray) \<Rightarrow> ndarray \<Rightarrow> ndarray option" where
  "until_unchanged f X = (let Y = f X in if Y = X then Some Y else until_unchanged f Y)"

declare until_unchanged.simps [code]

definition repeated :: "(ndarray \<Rightarrow> ndarray) \<Rightarrow> int \<Rightarrow> ndarray \<Rightarrow> ndarray option" where
  "repeated f iterations X =
     (if 1 \<le> iterations then Some ((f ^^ nat iterations) X) else until_unchanged f X)"

subsection \<open>The store, the call record and outcomes\<close>

text \<open>
  An array object is an address into the store; two names alias when they hold the same
  address. Every call of the reducer is recorded with the addresses it was given and the
  contents of both arrays at the moment of the call.
\<close>

record call =
  c_reduction :: reduction
  c_border :: bool
  c_source :: nat
  c_structure :: ndarray
  c_output :: nat
  c_iterations :: int
  c_source_contents :: ndarray
  c_output_contents :: ndarray

record state =
  heap :: "ndarray list"
  trace :: "call list"

text \<open>
  A call returns a value, raises, or never returns (the reducer's loop for a count below 1).
  The store is kept in every case: an exception leaves the arrays as they are at that
  moment, and the call record up to that moment.
\<close>

datatype exn = IndexError | RuntimeError

datatype 'a outcome = Returned 'a | Raised exn | Hangs

text \<open>Sequencing: an exception or a call that never returns ends the computation.\<close>

definition and_then ::
  "(state \<Rightarrow> 'a outcome \<times> state) \<Rightarrow> ('a \<Rightarrow> state \<Rightarrow> 'b outcome \<times> state) \<Rightarrow> state \<Rightarrow> 'b outcome \<times> state"
where
  "and_then m f st =
     (case m st of
        (Returned x, st1) \<Rightarrow> f x st1
      | (Raised e, st1) \<Rightarrow> (Raised e, st1)
      | (Hangs, st1) \<Rightarrow> (Hangs, st1))"

text \<open>
  \<open>np.empty(shape, dtype=bool)\<close>: a new array object. Its contents are whatever the
  allocator left there; the model fills it with false.
\<close>

definition np_empty :: "nat list \<Rightarrow> state \<Rightarrow> nat outcome \<times> state" where
  "np_empty s st =
     (Returned (length (heap st)),
      st\<lparr>heap := heap st @ [\<lparr>shape = s, data = replicate (prod_list s) False\<rparr>]\<rparr>)"

text \<open>\<open>a.copy()\<close>: a new array object with the contents of \<open>a\<close>.\<close>

definition copy :: "nat \<Rightarrow> state \<Rightarrow> nat outcome \<times> state" where
  "copy a st = (Returned (length (heap st)), st\<lparr>heap := heap st @ [heap st ! a]\<rparr>)"

text \<open>The record of one call, taken in the store the call starts in.\<close>

definition logged :: "reduction \<Rightarrow> bool \<Rightarrow> nat \<Rightarrow> ndarray \<Rightarrow> nat \<Rightarrow> int \<Rightarrow> state \<Rightarrow> call" where
  "logged r border input structure output iterations st =
     \<lparr>c_reduction = r, c_border = border, c_source = input,
      c_structure = structure, c_output = output, c_iterations = iterations,
      c_source_contents = heap st ! input, c_output_contents = heap st ! output\<rparr>"

text \<open>
  Modelled from the spec: a call of the reducer on array objects,
  \<open>ndi.binary_erosion(input, structure=, output=, iterations=, border_value=)\<close> and its
  dilation twin, which are \<open>scipy.ndimage\<close> and not part of this repository. The call
  reads the source, computes on that value and then fills the output array. It raises when
  the structure's rank differs from the image's and when the output's shape differs from
  the image's, as the spec says; SciPy also rejects a structure without elements, which is
  kept here so that no theorem promises a result where the reducer raises.
\<close>

definition reducer ::
  "reduction \<Rightarrow> bool \<Rightarrow> nat \<Rightarrow> ndarray \<Rightarrow> nat \<Rightarrow> int \<Rightarrow> state \<Rightarrow> nat outcome \<times> state"
where
  "reducer r border input structure output iterations st =
     (let X = heap st ! input;
          st1 = st\<lparr>trace := trace st @ [logged r border input structure output iterations st]\<rparr>
      in if length (shape structure) \<noteq> length (shape X) then (Raised RuntimeError, st1)
         else if prod_list (shape structure) < 1 then (Raised RuntimeError, st1)
         else if shape (heap st ! output) \<noteq> shape X then (Raised RuntimeError, st1)
         else (case repeated (pass r border structure) iterations X of
                 None \<Rightarrow> (Hangs, st1)
               | Some Y \<Rightarrow> (Returned output, st1\<lparr>heap := (heap st1)[output := Y]\<rparr>)))"

text \<open>
  The two entry points the module uses. \<open>ndi.binary_erosion\<close> is called with an explicit
  \<open>border_value\<close>; \<open>ndi.binary_dilation\<close> is called without one and has the default
  \<open>border_value=0\<close>.
\<close>

definition ndi_binary_erosion ::
  "bool \<Rightarrow> nat \<Rightarrow> ndarray \<Rightarrow> nat \<Rightarrow> int \<Rightarrow> state \<Rightarrow> nat outcome \<times> state" where
  "ndi_binary_erosion border_value = reducer Erosion border_value"

definition ndi_binary_dilation ::
  "nat \<Rightarrow> ndarray \<Rightarrow> nat \<Rightarrow> int \<Rightarrow> state \<Rightarrow> nat outcome \<times> state" where
  "ndi_binary_dilation = reducer Dilation False"

subsection \<open>Footprints\<close>

text \<open>
  A footprint is one structuring element or a sequence of pairs of a structuring element
  and a repeat count. The operators are always called with a footprint: the decorator
  \<open>default_footprint\<close> replaces an absent one before the body runs.
\<close>

datatype footprint =
  Single (element: ndarray)
| Decomposed (steps: "(ndarray \<times> int) list")

text \<open>
  Modelled from the spec: \<open>_footprint_is_sequence\<close> of \<open>skimage/morphology/footprints.py\<close>,
  which is not among the sources. It classifies the footprint as a single element or a
  decomposed sequence and does nothing else.
\<close>

definition footprint_is_sequence :: "footprint \<Rightarrow> bool" where
  "footprint_is_sequence footprint = (case footprint of Single _ \<Rightarrow> False | Decomposed _ \<Rightarrow> True)"

subsection \<open>The module\<close>

text \<open>
  \<open>_iterate_binary_func\<close>: \<open>footprint[0]\<close> raises IndexError on an empty sequence; the first
  call reads the image, every later call reads \<open>out.copy()\<close>; all of them write \<open>out\<close>.
  The loop over \<open>footprint[1:]\<close> is \<open>iterate_rest\<close>.
\<close>

type_synonym binary_func = "nat \<Rightarrow> ndarray \<Rightarrow> nat \<Rightarrow> int \<Rightarrow> state \<Rightarrow> nat outcome \<times> state"

fun iterate_rest :: "binary_func \<Rightarrow> (ndarray \<times> int) list \<Rightarrow> nat \<Rightarrow> state \<Rightarrow> nat outcome \<times> state" where
  "iterate_rest binary_func [] out st = (Returned out, st)"
| "iterate_rest binary_func ((fp, num_iter) # rest) out st =
     and_then (copy out)
       (\<lambda>c. and_then (binary_func c fp out num_iter)
         (\<lambda>_. iterate_rest binary_func rest out)) st"

definition iterate_binary_func ::
  "binary_func \<Rightarrow> nat \<Rightarrow> (ndarray \<times> int) list \<Rightarrow> nat \<Rightarrow> state \<Rightarrow> nat outcome \<times> state" where
  "iterate_binary_func binary_func img footprint out st =
     (case footprint of
        [] \<Rightarrow> (Raised IndexError, st)
      | (fp, num_iter) # rest \<Rightarrow>
          and_then (binary_func img fp out num_iter)
            (\<lambda>_. iterate_rest binary_func rest out) st)"

text \<open>\<open>if out is None: out = np.empty(image.shape, dtype=bool)\<close>\<close>

definition out_or_empty :: "nat \<Rightarrow> nat option \<Rightarrow> state \<Rightarrow> nat outcome \<times> state" where
  "out_or_empty img out st =
     (case out of None \<Rightarrow> np_empty (shape (heap st ! img)) st | Some a \<Rightarrow> (Returned a, st))"

text \<open>
  \<open>binary_erosion\<close> and \<open>binary_dilation\<close>. The parameter \<open>image\<close> is written \<open>img\<close>. A
  single footprint goes to the reducer with its default of one iteration; erosion passes
  \<open>border_value=True\<close>, dilation leaves the reducer's default. The decorator
  \<open>deprecate_kwarg\<close> only renames a keyword argument and is left out.
\<close>

definition binary_erosion :: "nat \<Rightarrow> footprint \<Rightarrow> nat option \<Rightarrow> state \<Rightarrow> nat outcome \<times> state" where
  "binary_erosion img footprint out =
     and_then (out_or_empty img out)
       (\<lambda>out. if footprint_is_sequence footprint
              then iterate_binary_func (ndi_binary_erosion True) img (steps footprint) out
              else and_then (ndi_binary_erosion True img (element footprint) out 1)
                     (\<lambda>_ st. (Returned out, st)))"

definition binary_dilation :: "nat \<Rightarrow> footprint \<Rightarrow> nat option \<Rightarrow> state \<Rightarrow> nat outcome \<times> state" where
  "binary_dilation img footprint out =
     and_then (out_or_empty img out)
       (\<lambda>out. if footprint_is_sequence footprint
              then iterate_binary_func ndi_binary_dilation img (steps footprint) out
              else and_then (ndi_binary_dilation img (element footprint) out 1)
                     (\<lambda>_ st. (Returned out, st)))"

text \<open>
  \<open>binary_opening\<close> and \<open>binary_closing\<close>: the first stage is called without \<open>out\<close>, the
  second with the caller's \<open>out\<close>.
\<close>

definition binary_opening :: "nat \<Rightarrow> footprint \<Rightarrow> nat option \<Rightarrow> state \<Rightarrow> nat outcome \<times> state" where
  "binary_opening img footprint out =
     and_then (binary_erosion img footprint None)
       (\<lambda>eroded. binary_dilation eroded footprint out)"

definition binary_closing :: "nat \<Rightarrow> footprint \<Rightarrow> nat option \<Rightarrow> state \<Rightarrow> nat outcome \<times> state" where
  "binary_closing img footprint out =
     and_then (binary_dilation img footprint None)
       (\<lambda>dilated. binary_erosion dilated footprint out)"

subsection \<open>Auxiliary definitions for the proofs\<close>

text \<open>
  \<open>binary_erosion\<close> and \<open>binary_dilation\<close> differ only in the reducer they call; this is
  their common body.
\<close>

definition operator_body ::
  "reduction \<Rightarrow> bool \<Rightarrow> nat \<Rightarrow> footprint \<Rightarrow> nat option \<Rightarrow> state \<Rightarrow> nat outcome \<times> state" where
  "operator_body r b img footprint out =
     and_then (out_or_empty img out)
       (\<lambda>out. if footprint_is_sequence footprint
              then iterate_binary_func (reducer r b) img (steps footprint) out
              else and_then (reducer r b img (element footprint) out 1)
                     (\<lambda>_ st. (Returned out, st)))"

text \<open>The array a call with this \<open>out\<close> argument fills: \<open>out\<close>, or the next new object.\<close>

definition target :: "state \<Rightarrow> nat option \<Rightarrow> nat" where
  "target st out = (case out of None \<Rightarrow> length (heap st) | Some a \<Rightarrow> a)"

text \<open>
  A caller's \<open>out\<close> argument is an existing array object of the image's shape, or absent.
\<close>

definition valid_out :: "state \<Rightarrow> nat \<Rightarrow> nat option \<Rightarrow> bool" where
  "valid_out st img out =
     (case out of None \<Rightarrow> True
      | Some a \<Rightarrow> a < length (heap st) \<and> shape (heap st ! a) = shape (heap st ! img))"

text \<open>The store once the output array is there.\<close>

definition prepared :: "state \<Rightarrow> nat \<Rightarrow> nat option \<Rightarrow> state" where
  "prepared st img out = snd (out_or_empty img out st)"

text \<open>A caller's \<open>out\<close> argument is an existing array object, or absent.\<close>

definition allocated :: "state \<Rightarrow> nat option \<Rightarrow> bool" where
  "allocated st out = (case out of None \<Rightarrow> True | Some a \<Rightarrow> a < length (heap st))"

text \<open>
  The array that opening and closing with a single footprint return: \<open>out\<close>, or the second
  new object (the first one holds the intermediate result).
\<close>

definition final_target :: "state \<Rightarrow> nat option \<Rightarrow> nat" where
  "final_target st out = (case out of None \<Rightarrow> Suc (length (heap st)) | Some a \<Rightarrow> a)"

text \<open>The returned array is \<open>out\<close> when \<open>out\<close> was given, and a new object otherwise.\<close>

definition out_or_new :: "state \<Rightarrow> nat option \<Rightarrow> nat \<Rightarrow> bool" where
  "out_or_new st out y = (case out of None \<Rightarrow> length (heap st) \<le> y | Some a \<Rightarrow> y = a)"

subsection \<open>Decomposed footprints and their composite\<close>

text \<open>
  The steps of a decomposed footprint as they are applied: each structure's offsets, once
  per repetition.
\<close>

definition expand :: "(ndarray \<times> int) list \<Rightarrow> int list list list" where
  "expand fps = concat (map (\<lambda>(fp, num_iter). replicate (nat num_iter) (offsets fp)) fps)"

text \<open>The Minkowski sum of two sets of offsets, and of all steps of a decomposition.\<close>

definition minkowski :: "int list list \<Rightarrow> int list list \<Rightarrow> int list list" where
  "minkowski A B = concat (map (\<lambda>a. map (vadd a) B) A)"

definition composite_offsets :: "nat \<Rightarrow> (ndarray \<times> int) list \<Rightarrow> int list list" where
  "composite_offsets rank fps = foldl minkowski [replicate rank 0] (expand fps)"

text \<open>
  A position from which every chain of neighbour steps, one offset per pass, stays inside
  an array of shape \<open>s\<close>. The passes are listed last pass first.
\<close>

fun stays_inside :: "nat list \<Rightarrow> int list list list \<Rightarrow> int list \<Rightarrow> bool" where
  "stays_inside s [] p = in_bounds s p"
| "stays_inside s (N # Ns) p = (in_bounds s p \<and> list_all (\<lambda>q. stays_inside s Ns (vadd p q)) N)"

text \<open>Steps that the reducer accepts for an image of shape \<open>s\<close>, with counts of at least 1.\<close>

definition valid_steps :: "nat list \<Rightarrow> (ndarray \<times> int) list \<Rightarrow> bool" where
  "valid_steps s fps =
     list_all (\<lambda>(fp, num_iter). length (shape fp) = length s \<and> 1 \<le> prod_list (shape fp)
                               \<and> 1 \<le> num_iter) fps"

text \<open>The contents the chained reducer calls leave in \<open>out\<close>.\<close>

definition chain :: "reduction \<Rightarrow> bool \<Rightarrow> (ndarray \<times> int) list \<Rightarrow> ndarray \<Rightarrow> ndarray" where
  "chain r b fps X = foldl (\<lambda>Y (fp, num_iter). (pass r b fp ^^ nat num_iter) Y) X fps"

text \<open>One erosion pass given by its offsets.\<close>

definition erode_by :: "bool \<Rightarrow> int list list \<Rightarrow> ndarray \<Rightarrow> ndarray" where
  "erode_by border N X =
     \<lparr>shape = shape X,
      data = map (\<lambda>p. list_all (\<lambda>q. lookup border X (vadd p q)) N) (indices (shape X))\<rparr>"

subsection \<open>Concrete inputs\<close>

text \<open>Two-dimensional images and the full 3x3 footprint.\<close>

definition full3x3 :: ndarray where
  "full3x3 = \<lparr>shape = [3, 3], data = replicate 9 True\<rparr>"

definition empty3x3 :: ndarray where
  "empty3x3 = \<lparr>shape = [3, 3], data = replicate 9 False\<rparr>"

definition dot3x3 :: ndarray where
  "dot3x3 = \<lparr>shape = [3, 3], data = [False, False, False, False, True, False, False, False, False]\<rparr>"

definition store3x3 :: state where
  "store3x3 = \<lparr>heap = [full3x3], trace = []\<rparr>"

definition dark3x3 :: state where
  "dark3x3 = \<lparr>heap = [empty3x3], trace = []\<rparr>"

definition two3x3 :: state where
  "two3x3 = \<lparr>heap = [full3x3, empty3x3], trace = []\<rparr>"

text \<open>
  One-dimensional structures of size 3 (centre at index 1) and 5 (centre at index 2), and
  one-dimensional images.
\<close>

definition left3 :: ndarray where
  "left3 = \<lparr>shape = [3], data = [True, False, False]\<rparr>"

definition right3 :: ndarray where
  "right3 = \<lparr>shape = [3], data = [False, False, True]\<rparr>"

definition centre3 :: ndarray where
  "centre3 = \<lparr>shape = [3], data = [False, True, False]\<rparr>"

definition mid_right3 :: ndarray where
  "mid_right3 = \<lparr>shape = [3], data = [False, True, True]\<rparr>"

definition line3 :: ndarray where
  "line3 = \<lparr>shape = [3], data = [True, True, True]\<rparr>"

definition line5 :: ndarray where
  "line5 = \<lparr>shape = [5], data = [True, True, True, True, True]\<rparr>"

definition row2 :: ndarray where
  "row2 = \<lparr>shape = [2], data = [False, False]\<rparr>"

definition row4 :: ndarray where
  "row4 = \<lparr>shape = [4], data = [False, False, True, True]\<rparr>"

definition row5 :: ndarray where
  "row5 = \<lparr>shape = [5], data = [True, True, True, True, False]\<rparr>"

definition skew_steps :: footprint where
  "skew_steps = Decomposed [(mid_right3, 1), (left3, 1)]"

definition row4_store :: state where
  "row4_store = \<lparr>heap = [row4], trace = []\<rparr>"

section \<open>Properties\<close>

subsection \<open>Positions and flat indices\<close>

lemma length_indices: "length (indices s) = prod_list s"
  by (induction s) (simp_all add: length_concat comp_def sum_list_triv)

lemma in_bounds_length: "in_bounds s p \<Longrightarrow> length p = length s"
  by (induction s p rule: in_bounds.induct) simp_all

lemma block_nth:
  "i < n \<Longrightarrow> j < length xs \<Longrightarrow>
   concat (map (\<lambda>i. map ((#) (int i)) xs) [0..<n]) ! (i * length xs + j) = int i # xs ! j"
proof (induction n)
  case 0
  then show ?case by simp
next
  case (Suc n)
  have len: "length (concat (map (\<lambda>i. map ((#) (int i)) xs) [0..<n])) = n * length xs"
    by (simp add: length_concat comp_def sum_list_triv)
  show ?case
  proof (cases "i < n")
    case True
    have "i * length xs + j < n * length xs"
    proof -
      have "i * length xs + j < i * length xs + length xs" using Suc.prems by simp
      also have "\<dots> = Suc i * length xs" by simp
      also have "\<dots> \<le> n * length xs" using True by (intro mult_le_mono1) simp
      finally show ?thesis .
    qed
    then show ?thesis using Suc True by (simp add: nth_append len)
  next
    case False
    then have "i = n" using Suc.prems by simp
    then show ?thesis using Suc.prems by (simp add: nth_append len)
  qed
qed

lemma ravel_less: "in_bounds s p \<Longrightarrow> ravel s p < prod_list s"
proof (induction s p rule: in_bounds.induct)
  case (2 n ns i "is")
  then have i: "nat i < n" and r: "ravel ns is < prod_list ns" by auto
  have "nat i * prod_list ns + ravel ns is < nat i * prod_list ns + prod_list ns"
    using r by simp
  also have "\<dots> = Suc (nat i) * prod_list ns" by simp
  also have "\<dots> \<le> n * prod_list ns" using i by (intro mult_le_mono1) simp
  finally show ?case by simp
qed simp_all

lemma nth_indices_ravel: "in_bounds s p \<Longrightarrow> indices s ! ravel s p = p"
proof (induction s p rule: in_bounds.induct)
  case (2 n ns i "is")
  then have i: "nat i < n" and r: "ravel ns is < length (indices ns)"
    by (auto simp: length_indices ravel_less)
  from block_nth[OF i r] 2 show ?case by (simp add: length_indices)
qed simp_all

lemma in_bounds_iff: "in_bounds s p \<longleftrightarrow> p \<in> set (indices s)"
proof (induction s p rule: in_bounds.induct)
  case (2 n ns i "is")
  show ?case
  proof
    assume "in_bounds (n # ns) (i # is)"
    then have "0 \<le> i" "nat i < n" "is \<in> set (indices ns)" using 2 by auto
    then show "i # is \<in> set (indices (n # ns))" by (auto intro!: bexI[of _ "nat i"])
  next
    assume "i # is \<in> set (indices (n # ns))"
    then show "in_bounds (n # ns) (i # is)" using 2 by auto
  qed
qed auto

lemma in_bounds_nth:
  "in_bounds s p \<longleftrightarrow> length p = length s \<and> (\<forall>k<length s. 0 \<le> p ! k \<and> p ! k < int (s ! k))"
proof (induction s p rule: in_bounds.induct)
  case (2 n ns i "is")
  show ?case by (auto simp: 2 nth_Cons split: nat.splits)
qed auto

lemma lookup_tabulate:
  "lookup b \<lparr>shape = s, data = map f (indices s)\<rparr> p = (if in_bounds s p then f p else b)"
  by (simp add: lookup_def pixel_def nth_indices_ravel ravel_less length_indices)

subsection \<open>One pass of the reducer\<close>

lemma pixel_tabulate:
  "in_bounds s p \<Longrightarrow> pixel \<lparr>shape = s, data = map f (indices s)\<rparr> p = f p"
  by (simp add: pixel_def nth_indices_ravel ravel_less length_indices)

lemma well_formed_pass: "well_formed (erode_pass b F X)" "well_formed (dilate_pass b F X)"
  by (simp_all add: well_formed_def erode_pass_def dilate_pass_def length_indices)

lemma shape_erode_pass [simp]: "shape (erode_pass b F X) = shape X"
  by (simp add: erode_pass_def)

lemma shape_dilate_pass [simp]: "shape (dilate_pass b F X) = shape X"
  by (simp add: dilate_pass_def)

lemma shape_pass [simp]: "shape (pass r b F X) = shape X"
  by (cases r) (simp_all add: pass_def)

lemma shape_funpow_pass [simp]: "shape ((pass r b F ^^ n) X) = shape X"
  by (induction n) simp_all

lemma pixel_erode_pass:
  "in_bounds (shape X) p \<Longrightarrow>
   pixel (erode_pass b F X) p = (\<forall>q\<in>set (offsets F). lookup b X (vadd p q))"
  by (simp add: erode_pass_def pixel_tabulate list_all_iff)

lemma pixel_dilate_pass:
  "in_bounds (shape X) p \<Longrightarrow>
   pixel (dilate_pass b F X) p = (\<exists>q\<in>set (offsets F). lookup b X (vsub p q))"
  by (simp add: dilate_pass_def pixel_tabulate list_ex_iff)

lemma lookup_erode_pass:
  "lookup b' (erode_pass b F X) p =
     (if in_bounds (shape X) p then (\<forall>q\<in>set (offsets F). lookup b X (vadd p q)) else b')"
  by (simp add: lookup_def pixel_erode_pass)

lemma lookup_dilate_pass:
  "lookup b' (dilate_pass b F X) p =
     (if in_bounds (shape X) p then (\<exists>q\<in>set (offsets F). lookup b X (vsub p q)) else b')"
  by (simp add: lookup_def pixel_dilate_pass)

lemma map_all_const: "(\<And>x. x \<in> set xs \<Longrightarrow> f x = c) \<Longrightarrow> map f xs = replicate (length xs) c"
  by (induction xs) simp_all

lemma lookup_replicate:
  "lookup b \<lparr>shape = s, data = replicate (prod_list s) c\<rparr> p = (if in_bounds s p then c else b)"
  by (simp add: lookup_def pixel_def ravel_less)

lemma erode_pass_all_true:
  assumes "data X = replicate (prod_list (shape X)) True"
  shows "erode_pass True F X = X"
proof -
  have X: "X = \<lparr>shape = shape X, data = replicate (prod_list (shape X)) True\<rparr>"
    using assms by simp
  have "\<And>p. lookup True X p" by (subst X) (simp add: lookup_replicate)
  then have "data (erode_pass True F X) = replicate (prod_list (shape X)) True"
    by (simp add: erode_pass_def list_all_iff length_indices[symmetric] map_all_const)
  then show ?thesis using assms by simp
qed

lemma dilate_pass_all_false:
  assumes "data X = replicate (prod_list (shape X)) False"
  shows "dilate_pass False F X = X"
proof -
  have X: "X = \<lparr>shape = shape X, data = replicate (prod_list (shape X)) False\<rparr>"
    using assms by simp
  have "\<And>p. \<not> lookup False X p" by (subst X) (simp add: lookup_replicate)
  then have "data (dilate_pass False F X) = replicate (prod_list (shape X)) False"
    by (simp add: dilate_pass_def list_ex_iff length_indices[symmetric] map_all_const)
  then show ?thesis using assms by simp
qed

lemma reducer_returns:
  assumes "length (shape F) = length (shape (heap st ! i))"
      and "1 \<le> prod_list (shape F)"
      and "shape (heap st ! out) = shape (heap st ! i)"
      and "1 \<le> n"
  shows "reducer r b i F out n st =
           (Returned out,
            \<lparr>heap = (heap st)[out := (pass r b F ^^ nat n) (heap st ! i)],
             trace = trace st @ [logged r b i F out n st]\<rparr>)"
  using assms by (simp add: reducer_def repeated_def logged_def Let_def)

lemma reducer_trace:
  "trace (snd (reducer r b i F out n st)) = trace st @ [logged r b i F out n st]"
  by (simp add: reducer_def logged_def Let_def split: option.splits)

subsection \<open>Erosion and dilation with a single footprint\<close>

lemma binary_erosion_body: "binary_erosion = operator_body Erosion True"
  unfolding binary_erosion_def operator_body_def ndi_binary_erosion_def by (intro ext) (rule refl)

lemma binary_dilation_body: "binary_dilation = operator_body Dilation False"
  unfolding binary_dilation_def operator_body_def ndi_binary_dilation_def by (intro ext) (rule refl)

lemma out_or_empty_run: "out_or_empty img out st = (Returned (target st out), prepared st img out)"
  by (simp add: out_or_empty_def prepared_def target_def np_empty_def split: option.splits)

lemma trace_prepared [simp]: "trace (prepared st img out) = trace st"
  by (simp add: out_or_empty_def prepared_def np_empty_def split: option.splits)

lemma heap_prepared_old:
  "a < length (heap st) \<Longrightarrow> heap (prepared st img out) ! a = heap st ! a"
  by (simp add: out_or_empty_def prepared_def np_empty_def nth_append split: option.splits)

lemma length_heap_prepared:
  "length (heap (prepared st img out)) = length (heap st) + (case out of None \<Rightarrow> 1 | Some _ \<Rightarrow> 0)"
  by (simp add: out_or_empty_def prepared_def np_empty_def split: option.splits)

lemma target_less_prepared:
  "valid_out st img out \<Longrightarrow> target st out < length (heap (prepared st img out))"
  by (simp add: out_or_empty_def prepared_def np_empty_def target_def valid_out_def split: option.splits)

lemma shape_target_prepared:
  "valid_out st img out \<Longrightarrow>
   shape (heap (prepared st img out) ! target st out) = shape (heap st ! img)"
  by (simp add: out_or_empty_def prepared_def np_empty_def target_def valid_out_def split: option.splits)

lemma operator_body_single:
  assumes "img < length (heap st)"
      and "length (shape F) = length (shape (heap st ! img))"
      and "1 \<le> prod_list (shape F)"
      and "valid_out st img out"
  shows "operator_body r b img (Single F) out st =
           (Returned (target st out),
            \<lparr>heap = (heap (prepared st img out))[target st out := pass r b F (heap st ! img)],
             trace = trace st @ [logged r b img F (target st out) 1 (prepared st img out)]\<rparr>)"
proof -
  let ?st1 = "prepared st img out"
  have 1: "length (shape F) = length (shape (heap ?st1 ! img))"
    using assms by (simp add: heap_prepared_old)
  have 2: "shape (heap ?st1 ! target st out) = shape (heap ?st1 ! img)"
    using assms by (simp add: heap_prepared_old shape_target_prepared)
  have "reducer r b img F (target st out) 1 ?st1 =
          (Returned (target st out),
           \<lparr>heap = (heap ?st1)[target st out := (pass r b F ^^ nat 1) (heap ?st1 ! img)],
            trace = trace ?st1 @ [logged r b img F (target st out) 1 ?st1]\<rparr>)"
    by (rule reducer_returns[OF 1 assms(3) 2]) simp
  then show ?thesis
    using assms(1)
    by (simp add: operator_body_def and_then_def out_or_empty_run footprint_is_sequence_def
        heap_prepared_old)
qed

text \<open>
  Claim C1. Called with a single footprint whose rank is the image's, \<open>binary_erosion\<close>
  returns the output array, and each of its positions holds the conjunction of the image
  over the footprint's neighbourhood of that position, where a neighbour outside the image
  counts as true. An image that is true everywhere is returned unchanged: eroding the
  all-true 3x3 image with the full 3x3 footprint gives the all-true 3x3 image.
\<close>

theorem binary_erosion_single_footprint:
  assumes "img < length (heap st)"
      and "length (shape F) = length (shape (heap st ! img))"
      and "1 \<le> prod_list (shape F)"
      and "valid_out st img out"
  shows "\<exists>st'. binary_erosion img (Single F) out st = (Returned (target st out), st')
           \<and> shape (heap st' ! target st out) = shape (heap st ! img)
           \<and> (\<forall>p. in_bounds (shape (heap st ! img)) p \<longrightarrow>
                 pixel (heap st' ! target st out) p =
                   (\<forall>q\<in>set (offsets F).
                      if in_bounds (shape (heap st ! img)) (vadd p q)
                      then pixel (heap st ! img) (vadd p q) else True))
           \<and> (data (heap st ! img) = replicate (prod_list (shape (heap st ! img))) True \<longrightarrow>
                 heap st' ! target st out = heap st ! img)"
proof -
  let ?X = "heap st ! img" and ?t = "target st out"
  let ?st' = "\<lparr>heap = (heap (prepared st img out))[?t := pass Erosion True F ?X],
               trace = trace st @ [logged Erosion True img F ?t 1 (prepared st img out)]\<rparr>"
  have run: "binary_erosion img (Single F) out st = (Returned ?t, ?st')"
    unfolding binary_erosion_body by (rule operator_body_single[OF assms])
  have res: "heap ?st' ! ?t = erode_pass True F ?X"
    using target_less_prepared[OF assms(4)] by (simp add: pass_def)
  have px: "\<forall>p. in_bounds (shape ?X) p \<longrightarrow>
              pixel (erode_pass True F ?X) p =
                (\<forall>q\<in>set (offsets F).
                   if in_bounds (shape ?X) (vadd p q) then pixel ?X (vadd p q) else True)"
    by (simp add: pixel_erode_pass lookup_def)
  have all: "data ?X = replicate (prod_list (shape ?X)) True \<longrightarrow> erode_pass True F ?X = ?X"
    by (simp add: erode_pass_all_true)
  show ?thesis
    apply (rule exI[of _ ?st'])
    apply (simp only: res run)
    using px all by simp
qed

theorem binary_erosion_single_footprint_witness:
  "\<exists>st'. binary_erosion 0 (Single full3x3) None store3x3 = (Returned 1, st')
         \<and> heap st' ! 1 = full3x3"
proof -
  have h1: "0 < length (heap store3x3)" by (simp add: store3x3_def)
  have h2: "length (shape full3x3) = length (shape (heap store3x3 ! 0))"
    by (simp add: store3x3_def)
  have h3: "1 \<le> prod_list (shape full3x3)" by (simp add: full3x3_def)
  have h4: "valid_out store3x3 0 None" by (simp add: valid_out_def)
  have t: "target store3x3 None = 1" by (simp add: target_def store3x3_def)
  have a: "data (heap store3x3 ! 0) = replicate (prod_list (shape (heap store3x3 ! 0))) True"
    by (simp add: store3x3_def full3x3_def)
  have x: "heap store3x3 ! 0 = full3x3" by (simp add: store3x3_def)
  from binary_erosion_single_footprint[OF h1 h2 h3 h4] obtain st' where
    "binary_erosion 0 (Single full3x3) None store3x3 = (Returned (target store3x3 None), st')"
    "data (heap store3x3 ! 0) = replicate (prod_list (shape (heap store3x3 ! 0))) True \<longrightarrow>
       heap st' ! target store3x3 None = heap store3x3 ! 0"
    by blast
  with a show ?thesis unfolding t x by blast
qed

text \<open>
  Claim C2. Called with a single footprint whose rank is the image's, \<open>binary_dilation\<close>
  returns the output array, and each of its positions holds the disjunction of the image
  over the footprint's neighbourhood of that position (the footprint reflected through its
  centre), where a neighbour outside the image counts as false. An image that is false
  everywhere is returned unchanged, whatever the footprint.
\<close>

theorem binary_dilation_single_footprint:
  assumes "img < length (heap st)"
      and "length (shape F) = length (shape (heap st ! img))"
      and "1 \<le> prod_list (shape F)"
      and "valid_out st img out"
  shows "\<exists>st'. binary_dilation img (Single F) out st = (Returned (target st out), st')
           \<and> shape (heap st' ! target st out) = shape (heap st ! img)
           \<and> (\<forall>p. in_bounds (shape (heap st ! img)) p \<longrightarrow>
                 pixel (heap st' ! target st out) p =
                   (\<exists>q\<in>set (offsets F).
                      if in_bounds (shape (heap st ! img)) (vsub p q)
                      then pixel (heap st ! img) (vsub p q) else False))
           \<and> (data (heap st ! img) = replicate (prod_list (shape (heap st ! img))) False \<longrightarrow>
                 heap st' ! target st out = heap st ! img)"
proof -
  let ?X = "heap st ! img" and ?t = "target st out"
  let ?st' = "\<lparr>heap = (heap (prepared st img out))[?t := pass Dilation False F ?X],
               trace = trace st @ [logged Dilation False img F ?t 1 (prepared st img out)]\<rparr>"
  have run: "binary_dilation img (Single F) out st = (Returned ?t, ?st')"
    unfolding binary_dilation_body by (rule operator_body_single[OF assms])
  have res: "heap ?st' ! ?t = dilate_pass False F ?X"
    using target_less_prepared[OF assms(4)] by (simp add: pass_def)
  have px: "\<forall>p. in_bounds (shape ?X) p \<longrightarrow>
              pixel (dilate_pass False F ?X) p =
                (\<exists>q\<in>set (offsets F).
                   if in_bounds (shape ?X) (vsub p q) then pixel ?X (vsub p q) else False)"
    by (simp add: pixel_dilate_pass lookup_def)
  have all: "data ?X = replicate (prod_list (shape ?X)) False \<longrightarrow> dilate_pass False F ?X = ?X"
    by (simp add: dilate_pass_all_false)
  show ?thesis
    apply (rule exI[of _ ?st'])
    apply (simp only: res run)
    using px all by simp
qed

theorem binary_dilation_single_footprint_witness:
  "\<exists>st'. binary_dilation 0 (Single full3x3) None dark3x3 = (Returned 1, st')
         \<and> heap st' ! 1 = empty3x3"
proof -
  have h1: "0 < length (heap dark3x3)" by (simp add: dark3x3_def)
  have h2: "length (shape full3x3) = length (shape (heap dark3x3 ! 0))"
    by (simp add: dark3x3_def full3x3_def empty3x3_def)
  have h3: "1 \<le> prod_list (shape full3x3)" by (simp add: full3x3_def)
  have h4: "valid_out dark3x3 0 None" by (simp add: valid_out_def)
  have t: "target dark3x3 None = 1" by (simp add: target_def dark3x3_def)
  have x: "heap dark3x3 ! 0 = empty3x3" by (simp add: dark3x3_def)
  have a: "data (heap dark3x3 ! 0) = replicate (prod_list (shape (heap dark3x3 ! 0))) False"
    by (simp add: x empty3x3_def)
  from binary_dilation_single_footprint[OF h1 h2 h3 h4] obtain st' where
    "binary_dilation 0 (Single full3x3) None dark3x3 = (Returned (target dark3x3 None), st')"
    "data (heap dark3x3 ! 0) = replicate (prod_list (shape (heap dark3x3 ! 0))) False \<longrightarrow>
       heap st' ! target dark3x3 None = heap dark3x3 ! 0"
    by blast
  with a show ?thesis unfolding t x by blast
qed

subsection \<open>The calls of the sequential driver\<close>

lemma reducer_heap_length [simp]:
  "length (heap (snd (reducer r b i F out n st))) = length (heap st)"
  by (simp add: reducer_def Let_def split: option.splits)

lemma reducer_heap_other:
  "a \<noteq> out \<Longrightarrow> heap (snd (reducer r b i F out n st)) ! a = heap st ! a"
  by (simp add: reducer_def Let_def split: option.splits)

lemma reducer_returned: "fst (reducer r b i F out n st) = Returned x \<Longrightarrow> x = out"
  by (simp add: reducer_def Let_def split: option.splits if_splits)

lemma and_then_cases:
  "and_then m f st = (res, st') \<longleftrightarrow>
     (\<exists>x st1. m st = (Returned x, st1) \<and> f x st1 = (res, st'))
   \<or> (\<exists>e. m st = (Raised e, st') \<and> res = Raised e)
   \<or> (m st = (Hangs, st') \<and> res = Hangs)"
  by (cases "m st"; cases "fst (m st)") (auto simp: and_then_def)

lemma iterate_rest_calls:
  assumes "out < length (heap st)"
      and "iterate_rest (reducer r b) fps out st = (res, st')"
  shows "\<exists>cs. trace st' = trace st @ cs \<and> length cs \<le> length fps
           \<and> (\<forall>x. res = Returned x \<longrightarrow> x = out \<and> length cs = length fps)
           \<and> length (heap st') = length (heap st) + length cs
           \<and> (\<forall>a<length (heap st). a \<noteq> out \<longrightarrow> heap st' ! a = heap st ! a)
           \<and> (\<forall>i<length cs.
                 c_reduction (cs ! i) = r \<and> c_border (cs ! i) = b
               \<and> c_source (cs ! i) = length (heap st) + i
               \<and> c_structure (cs ! i) = fst (fps ! i)
               \<and> c_output (cs ! i) = out
               \<and> c_iterations (cs ! i) = snd (fps ! i)
               \<and> c_source_contents (cs ! i) = c_output_contents (cs ! i))"
  using assms
proof (induction fps arbitrary: st)
  case Nil
  then show ?case by auto
next
  case (Cons step rest)
  obtain fp n where step: "step = (fp, n)" by (cases step)
  let ?c = "length (heap st)"
  let ?st1 = "st\<lparr>heap := heap st @ [heap st ! out]\<rparr>"
  let ?call = "logged r b ?c fp out n ?st1"
  obtain res2 st2 where red: "reducer r b ?c fp out n ?st1 = (res2, st2)"
    by (cases "reducer r b ?c fp out n ?st1")
  have tr2: "trace st2 = trace st @ [?call]"
    using reducer_trace[of r b ?c fp out n ?st1] red by simp
  have len2: "length (heap st2) = Suc (length (heap st))"
    using reducer_heap_length[of r b ?c fp out n ?st1] red by simp
  have old2: "\<forall>a<length (heap st). a \<noteq> out \<longrightarrow> heap st2 ! a = heap st ! a"
    using reducer_heap_other[of _ out r b ?c fp n ?st1] red by (simp add: nth_append)
  have call: "c_reduction ?call = r \<and> c_border ?call = b \<and> c_source ?call = ?c
      \<and> c_structure ?call = fp \<and> c_output ?call = out \<and> c_iterations ?call = n
      \<and> c_source_contents ?call = c_output_contents ?call"
    using Cons.prems(1) by (simp add: logged_def nth_append)
  have run: "iterate_rest (reducer r b) (step # rest) out st =
        (case res2 of Returned _ \<Rightarrow> iterate_rest (reducer r b) rest out st2
         | Raised e \<Rightarrow> (Raised e, st2) | Hangs \<Rightarrow> (Hangs, st2))"
    by (simp add: step and_then_def copy_def red split: outcome.splits)
  show ?case
  proof (cases res2)
    case (Returned x)
    then have rest: "iterate_rest (reducer r b) rest out st2 = (res, st')"
      using run Cons.prems(2) by simp
    have "out < length (heap st2)" using Cons.prems(1) len2 by simp
    from Cons.IH[OF this rest] obtain cs where cs:
      "trace st' = trace st2 @ cs" "length cs \<le> length rest"
      "\<forall>x. res = Returned x \<longrightarrow> x = out \<and> length cs = length rest"
      "length (heap st') = length (heap st2) + length cs"
      "\<forall>a<length (heap st2). a \<noteq> out \<longrightarrow> heap st' ! a = heap st2 ! a"
      "\<forall>i<length cs.
                 c_reduction (cs ! i) = r \<and> c_border (cs ! i) = b
               \<and> c_source (cs ! i) = length (heap st2) + i
               \<and> c_structure (cs ! i) = fst (rest ! i)
               \<and> c_output (cs ! i) = out
               \<and> c_iterations (cs ! i) = snd (rest ! i)
               \<and> c_source_contents (cs ! i) = c_output_contents (cs ! i)"
      by blast
    show ?thesis
    proof (intro exI[of _ "?call # cs"] conjI allI impI)
      show "trace st' = trace st @ ?call # cs" using cs(1) tr2 by simp
      show "length (?call # cs) \<le> length (step # rest)" using cs(2) by simp
      show "length (heap st') = length (heap st) + length (?call # cs)"
        using cs(4) len2 by simp
      fix a assume "a < length (heap st)" "a \<noteq> out"
      then show "heap st' ! a = heap st ! a" using cs(5) old2 len2 by simp
    next
      fix x assume "res = Returned x"
      then show "x = out" "length (?call # cs) = length (step # rest)" using cs(3) by simp_all
    next
      fix i assume i: "i < length (?call # cs)"
      show "c_reduction ((?call # cs) ! i) = r" "c_border ((?call # cs) ! i) = b"
        "c_source ((?call # cs) ! i) = length (heap st) + i"
        "c_structure ((?call # cs) ! i) = fst ((step # rest) ! i)"
        "c_output ((?call # cs) ! i) = out"
        "c_iterations ((?call # cs) ! i) = snd ((step # rest) ! i)"
        "c_source_contents ((?call # cs) ! i) = c_output_contents ((?call # cs) ! i)"
        using i cs(6) call len2 by (cases i; simp add: step)+
    qed
  next
    case (Raised e)
    then have "res = Raised e" "st' = st2" using run Cons.prems(2) by simp_all
    then show ?thesis using tr2 len2 old2 call
      by (intro exI[of _ "[?call]"]) (simp add: step)
  next
    case Hangs
    then have "res = Hangs" "st' = st2" using run Cons.prems(2) by simp_all
    then show ?thesis using tr2 len2 old2 call
      by (intro exI[of _ "[?call]"]) (simp add: step)
  qed
qed

lemma iterate_binary_func_calls:
  assumes "out < length (heap st)"
      and "iterate_binary_func (reducer r b) img ((fp, n) # rest) out st = (res, st')"
  shows "\<exists>cs. trace st' = trace st @ logged r b img fp out n st # cs
           \<and> length cs \<le> length rest
           \<and> (\<forall>x. res = Returned x \<longrightarrow> x = out \<and> length cs = length rest)
           \<and> length (heap st') = length (heap st) + length cs
           \<and> (\<forall>a<length (heap st). a \<noteq> out \<longrightarrow> heap st' ! a = heap st ! a)
           \<and> (\<forall>i<length cs.
                 c_reduction (cs ! i) = r \<and> c_border (cs ! i) = b
               \<and> c_source (cs ! i) = length (heap st) + i
               \<and> c_structure (cs ! i) = fst (rest ! i)
               \<and> c_output (cs ! i) = out
               \<and> c_iterations (cs ! i) = snd (rest ! i)
               \<and> c_source_contents (cs ! i) = c_output_contents (cs ! i))"
proof -
  obtain res1 st1 where red: "reducer r b img fp out n st = (res1, st1)"
    by (cases "reducer r b img fp out n st")
  have tr1: "trace st1 = trace st @ [logged r b img fp out n st]"
    using reducer_trace[of r b img fp out n st] red by simp
  have len1: "length (heap st1) = length (heap st)"
    using reducer_heap_length[of r b img fp out n st] red by simp
  have old1: "\<forall>a. a \<noteq> out \<longrightarrow> heap st1 ! a = heap st ! a"
    using reducer_heap_other[of _ out r b img fp n st] red by simp
  have run: "iterate_binary_func (reducer r b) img ((fp, n) # rest) out st =
        (case res1 of Returned _ \<Rightarrow> iterate_rest (reducer r b) rest out st1
         | Raised e \<Rightarrow> (Raised e, st1) | Hangs \<Rightarrow> (Hangs, st1))"
    by (simp add: iterate_binary_func_def and_then_def red split: outcome.splits)
  show ?thesis
  proof (cases res1)
    case (Returned x)
    then have rest: "iterate_rest (reducer r b) rest out st1 = (res, st')"
      using run assms(2) by simp
    have "out < length (heap st1)" using assms(1) len1 by simp
    from iterate_rest_calls[OF this rest] show ?thesis
      using tr1 len1 old1 by auto
  next
    case (Raised e)
    then have "res = Raised e" "st' = st1" using run assms(2) by simp_all
    then show ?thesis using tr1 len1 old1 by (intro exI[of _ "[]"]) simp
  next
    case Hangs
    then have "res = Hangs" "st' = st1" using run assms(2) by simp_all
    then show ?thesis using tr1 len1 old1 by (intro exI[of _ "[]"]) simp
  qed
qed

text \<open>
  Claim C3. For a decomposed footprint of at least two steps, the calls that
  \<open>_iterate_binary_func\<close> makes are these: the first reads the image and writes \<open>out\<close>;
  call number \<open>i > 0\<close> reads a new array object, made for this call and holding what
  \<open>out\<close> holds at that moment, and writes \<open>out\<close>; each call gets the structure and the
  count of its step. So after the first call no call reads the array it writes. When the
  driver returns, it has made one call for every step.
\<close>

theorem iterate_binary_func_sources:
  assumes "2 \<le> length footprint"
      and "img < length (heap st)"
      and "out < length (heap st)"
      and "iterate_binary_func (reducer r b) img footprint out st = (res, st')"
  shows "\<exists>cs. trace st' = trace st @ cs
           \<and> 1 \<le> length cs \<and> length cs \<le> length footprint
           \<and> (\<forall>x. res = Returned x \<longrightarrow> x = out \<and> length cs = length footprint)
           \<and> c_source (cs ! 0) = img \<and> c_source_contents (cs ! 0) = heap st ! img
           \<and> (\<forall>i<length cs.
                 c_output (cs ! i) = out
               \<and> c_structure (cs ! i) = fst (footprint ! i)
               \<and> c_iterations (cs ! i) = snd (footprint ! i))
           \<and> (\<forall>i<length cs. 0 < i \<longrightarrow>
                 c_source (cs ! i) = length (heap st) + (i - 1)
               \<and> c_source (cs ! i) \<noteq> c_output (cs ! i)
               \<and> c_source (cs ! i) \<noteq> img
               \<and> c_source_contents (cs ! i) = c_output_contents (cs ! i))"
proof -
  obtain fp n rest where fps: "footprint = (fp, n) # rest"
    using assms(1) by (cases footprint) auto
  let ?c = "logged r b img fp out n st"
  from iterate_binary_func_calls[OF assms(3) assms(4)[unfolded fps]] obtain cs where cs:
    "trace st' = trace st @ ?c # cs" "length cs \<le> length rest"
    "\<forall>x. res = Returned x \<longrightarrow> x = out \<and> length cs = length rest"
    "\<forall>i<length cs.
                 c_reduction (cs ! i) = r \<and> c_border (cs ! i) = b
               \<and> c_source (cs ! i) = length (heap st) + i
               \<and> c_structure (cs ! i) = fst (rest ! i)
               \<and> c_output (cs ! i) = out
               \<and> c_iterations (cs ! i) = snd (rest ! i)
               \<and> c_source_contents (cs ! i) = c_output_contents (cs ! i)"
    by blast
  have first: "c_source ?c = img" "c_source_contents ?c = heap st ! img" "c_output ?c = out"
    "c_structure ?c = fp" "c_iterations ?c = n"
    by (simp_all add: logged_def)
  show ?thesis
  proof (intro exI[of _ "?c # cs"] conjI allI impI)
    show "trace st' = trace st @ ?c # cs" by (rule cs(1))
    show "1 \<le> length (?c # cs)" by simp
    show "length (?c # cs) \<le> length footprint" using cs(2) fps by simp
    show "c_source ((?c # cs) ! 0) = img" "c_source_contents ((?c # cs) ! 0) = heap st ! img"
      using first by simp_all
  next
    fix x assume "res = Returned x"
    then show "x = out" "length (?c # cs) = length footprint" using cs(3) fps by simp_all
  next
    fix i assume "i < length (?c # cs)"
    then show "c_output ((?c # cs) ! i) = out"
      "c_structure ((?c # cs) ! i) = fst (footprint ! i)"
      "c_iterations ((?c # cs) ! i) = snd (footprint ! i)"
      using cs(4) first fps by (cases i; simp)+
  next
    fix i assume i: "i < length (?c # cs)" "0 < i"
    then obtain j where j: "i = Suc j" "j < length cs" by (cases i) auto
    with cs(4) have s: "c_source (cs ! j) = length (heap st) + j" "c_output (cs ! j) = out"
      "c_source_contents (cs ! j) = c_output_contents (cs ! j)" by simp_all
    show "c_source ((?c # cs) ! i) = length (heap st) + (i - 1)"
      "c_source ((?c # cs) ! i) \<noteq> c_output ((?c # cs) ! i)"
      "c_source ((?c # cs) ! i) \<noteq> img"
      "c_source_contents ((?c # cs) ! i) = c_output_contents ((?c # cs) ! i)"
      using j s assms(2,3) by simp_all
  qed
qed

theorem iterate_binary_func_sources_witness:
  "\<exists>st' cs. iterate_binary_func (reducer Erosion True) 0 [(left3, 1), (right3, 1)] 1
               \<lparr>heap = [row2, row2], trace = []\<rparr> = (Returned 1, st')
     \<and> trace st' = cs \<and> length cs = 2
     \<and> c_source (cs ! 0) = 0 \<and> c_output (cs ! 0) = 1
     \<and> c_source (cs ! 1) = 2 \<and> c_output (cs ! 1) = 1
     \<and> c_source_contents (cs ! 1) = c_output_contents (cs ! 1)"
proof -
  let ?st = "\<lparr>heap = [row2, row2], trace = []\<rparr>"
  let ?run = "iterate_binary_func (reducer Erosion True) 0 [(left3, 1), (right3, 1)] 1 ?st"
  have h1: "2 \<le> length [(left3, 1::int), (right3, 1)]" by simp
  have h2: "0 < length (heap ?st)" by simp
  have h3: "1 < length (heap ?st)" by simp
  have r: "fst ?run = Returned 1" by code_simp
  then have h4: "?run = (Returned 1, snd ?run)" by (metis prod.collapse)
  from iterate_binary_func_sources[OF h1 h2 h3 h4] obtain cs where
    "trace (snd ?run) = trace ?st @ cs" "length cs = length [(left3, 1::int), (right3, 1)]"
    "c_source (cs ! 0) = 0"
    "\<forall>i<length cs. c_output (cs ! i) = 1"
    "\<forall>i<length cs. 0 < i \<longrightarrow>
                 c_source (cs ! i) = length (heap ?st) + (i - 1)
               \<and> c_source (cs ! i) \<noteq> c_output (cs ! i)
               \<and> c_source (cs ! i) \<noteq> 0
               \<and> c_source_contents (cs ! i) = c_output_contents (cs ! i)"
    by blast
  then show ?thesis using h4 by (intro exI[of _ "snd ?run"] exI[of _ cs]) simp
qed

subsection \<open>What an operator call touches\<close>

lemma valid_out_allocated: "valid_out st img out \<Longrightarrow> allocated st out"
  by (simp add: valid_out_def allocated_def split: option.splits)

lemma target_less_prepared':
  "allocated st out \<Longrightarrow> target st out < length (heap (prepared st img out))"
  by (simp add: out_or_empty_def prepared_def np_empty_def target_def allocated_def split: option.splits)

lemma length_heap_prepared_ge: "length (heap st) \<le> length (heap (prepared st img out))"
  by (simp add: length_heap_prepared)

lemma operator_body_calls:
  assumes "allocated st out"
      and "operator_body r b img footprint out st = (res, st')"
  shows "(\<forall>x. res = Returned x \<longrightarrow> x = target st out)
       \<and> (\<exists>cs. trace st' = trace st @ cs
                \<and> (\<forall>c\<in>set cs. c_output c = target st out \<and> c_reduction c = r \<and> c_border c = b))
       \<and> length (heap st) \<le> length (heap st')
       \<and> target st out < length (heap st')
       \<and> (\<forall>a<length (heap st). a \<noteq> target st out \<longrightarrow> heap st' ! a = heap st ! a)"
proof -
  let ?t = "target st out" and ?st1 = "prepared st img out"
  have t: "?t < length (heap ?st1)" by (rule target_less_prepared'[OF assms(1)])
  have ge: "length (heap st) \<le> length (heap ?st1)" by (rule length_heap_prepared_ge)
  show ?thesis
  proof (cases footprint)
    case (Single F)
    have run: "operator_body r b img footprint out st =
        (case fst (reducer r b img F ?t 1 ?st1) of Returned _ \<Rightarrow> Returned ?t
           | Raised e \<Rightarrow> Raised e | Hangs \<Rightarrow> Hangs, snd (reducer r b img F ?t 1 ?st1))"
      by (cases "reducer r b img F ?t 1 ?st1")
        (simp add: operator_body_def and_then_def out_or_empty_run footprint_is_sequence_def
          Single split: outcome.splits)
    then have st': "st' = snd (reducer r b img F ?t 1 ?st1)"
      and res: "res = (case fst (reducer r b img F ?t 1 ?st1) of Returned _ \<Rightarrow> Returned ?t
           | Raised e \<Rightarrow> Raised e | Hangs \<Rightarrow> Hangs)"
      using assms(2) by simp_all
    have 1: "\<forall>x. res = Returned x \<longrightarrow> x = ?t" using res by (auto split: outcome.splits)
    have 2: "trace st' = trace st @ [logged r b img F ?t 1 ?st1]"
      by (simp add: st' reducer_trace)
    have 3: "length (heap st') = length (heap ?st1)" by (simp add: st')
    have 4: "\<forall>a<length (heap st). a \<noteq> ?t \<longrightarrow> heap st' ! a = heap st ! a"
      by (simp add: st' reducer_heap_other heap_prepared_old)
    show ?thesis using 1 2 3 4 t ge by (simp add: logged_def)
  next
    case (Decomposed fps)
    have run: "operator_body r b img footprint out st =
        iterate_binary_func (reducer r b) img fps ?t ?st1"
      by (simp add: operator_body_def and_then_def out_or_empty_run footprint_is_sequence_def
          Decomposed)
    show ?thesis
    proof (cases fps)
      case Nil
      then have "res = Raised IndexError" "st' = ?st1"
        using run assms(2) by (simp_all add: iterate_binary_func_def)
      then show ?thesis using t ge by (simp add: heap_prepared_old)
    next
      case (Cons step rest)
      obtain fp n where step: "step = (fp, n)" by (cases step)
      have "iterate_binary_func (reducer r b) img ((fp, n) # rest) ?t ?st1 = (res, st')"
        using run assms(2) Cons step by simp
      from iterate_binary_func_calls[OF t this] obtain cs where cs:
        "trace st' = trace ?st1 @ logged r b img fp ?t n ?st1 # cs"
        "\<forall>x. res = Returned x \<longrightarrow> x = ?t \<and> length cs = length rest"
        "length (heap st') = length (heap ?st1) + length cs"
        "\<forall>a<length (heap ?st1). a \<noteq> ?t \<longrightarrow> heap st' ! a = heap ?st1 ! a"
        "\<forall>i<length cs.
                 c_reduction (cs ! i) = r \<and> c_border (cs ! i) = b
               \<and> c_source (cs ! i) = length (heap ?st1) + i
               \<and> c_structure (cs ! i) = fst (rest ! i)
               \<and> c_output (cs ! i) = ?t
               \<and> c_iterations (cs ! i) = snd (rest ! i)
               \<and> c_source_contents (cs ! i) = c_output_contents (cs ! i)"
        by blast
      have all: "\<forall>c\<in>set cs. c_output c = ?t \<and> c_reduction c = r \<and> c_border c = b"
        using cs(5) by (auto simp: in_set_conv_nth)
      have 4: "\<forall>a<length (heap st). a \<noteq> ?t \<longrightarrow> heap st' ! a = heap st ! a"
        using cs(4) ge by (simp add: heap_prepared_old)
      show ?thesis using cs(1,2,3) all 4 t ge by (simp add: logged_def)
    qed
  qed
qed

lemma target_None [simp]: "target st None = length (heap st)"
  by (simp add: target_def)

lemma target_Some [simp]: "target st (Some a) = a"
  by (simp add: target_def)

lemma allocated_None [simp]: "allocated st None"
  by (simp add: allocated_def)

text \<open>The first stage of opening and closing: a call without \<open>out\<close>.\<close>

lemma first_stage:
  assumes "allocated st out"
      and "operator_body r b img footprint None st = (res, st1)"
  shows "(\<forall>x. res = Returned x \<longrightarrow> x = length (heap st))
       \<and> (\<exists>cs. trace st1 = trace st @ cs
                \<and> (\<forall>c\<in>set cs. c_output c = length (heap st) \<and> Some (c_output c) \<noteq> out))
       \<and> (\<forall>a<length (heap st). heap st1 ! a = heap st ! a)
       \<and> allocated st1 out \<and> length (heap st) < length (heap st1)"
proof -
  from operator_body_calls[OF allocated_None assms(2)] obtain cs where
    1: "\<forall>x. res = Returned x \<longrightarrow> x = length (heap st)"
    and 2: "trace st1 = trace st @ cs" "\<forall>c\<in>set cs. c_output c = length (heap st)"
    and 3: "length (heap st) < length (heap st1)"
           "\<forall>a<length (heap st). a \<noteq> length (heap st) \<longrightarrow> heap st1 ! a = heap st ! a"
    by auto
  have "\<forall>c\<in>set cs. Some (c_output c) \<noteq> out"
    using 2(2) assms(1) by (auto simp: allocated_def)
  moreover have "allocated st1 out"
    using 3(1) assms(1) by (auto simp: allocated_def split: option.splits)
  ultimately show ?thesis using 1 2 3 by auto
qed

lemma two_stage_returned:
  assumes "allocated st out"
      and "and_then (operator_body r1 b1 img footprint None)
             (\<lambda>x. operator_body r2 b2 x footprint out) st = (Returned y, st2)"
  shows "y \<noteq> length (heap st) \<and> (case out of Some a \<Rightarrow> y = a | None \<Rightarrow> length (heap st) < y)"
proof -
  from assms(2) obtain x st1 where
    1: "operator_body r1 b1 img footprint None st = (Returned x, st1)"
    and 2: "operator_body r2 b2 x footprint out st1 = (Returned y, st2)"
    by (auto simp: and_then_cases)
  from first_stage[OF assms(1) 1] have a: "allocated st1 out" "length (heap st) < length (heap st1)"
    by simp_all
  from operator_body_calls[OF a(1) 2] have "y = target st1 out" by simp
  then show ?thesis using a(2) assms(1) by (auto simp: allocated_def split: option.splits)
qed

lemma and_then_unfold:
  "and_then m f st =
     (case m st of (Returned x, st1) \<Rightarrow> f x st1
      | (Raised e, st1) \<Rightarrow> (Raised e, st1) | (Hangs, st1) \<Rightarrow> (Hangs, st1))"
  by (simp add: and_then_def)

text \<open>
  Claim C4. \<open>binary_opening\<close> is \<open>binary_dilation\<close> applied to the array that
  \<open>binary_erosion\<close> returns, with the same footprint. The erosion is called without \<open>out\<close>:
  every reducer call of that stage writes the array object created at its start, which is
  not the caller's \<open>out\<close>; that object is what the stage returns, no array that existed
  before the call is changed by the stage, and the array the opening returns is another one.
\<close>

theorem binary_opening_stages:
  assumes "allocated st out"
  shows "binary_opening img footprint out st =
           (case binary_erosion img footprint None st of
              (Returned eroded, st1) \<Rightarrow> binary_dilation eroded footprint out st1
            | (Raised e, st1) \<Rightarrow> (Raised e, st1)
            | (Hangs, st1) \<Rightarrow> (Hangs, st1))
       \<and> (\<forall>x. fst (binary_erosion img footprint None st) = Returned x \<longrightarrow> x = length (heap st))
       \<and> (\<exists>cs. trace (snd (binary_erosion img footprint None st)) = trace st @ cs
                \<and> (\<forall>c\<in>set cs. c_output c = length (heap st) \<and> Some (c_output c) \<noteq> out))
       \<and> (\<forall>a<length (heap st). heap (snd (binary_erosion img footprint None st)) ! a = heap st ! a)
       \<and> (\<forall>y. fst (binary_opening img footprint out st) = Returned y \<longrightarrow> y \<noteq> length (heap st))"
proof -
  have "operator_body Erosion True img footprint None st =
          (fst (binary_erosion img footprint None st), snd (binary_erosion img footprint None st))"
    by (simp add: binary_erosion_body)
  from first_stage[OF assms this] have 1: "binary_opening img footprint out st =
           (case binary_erosion img footprint None st of
              (Returned eroded, st1) \<Rightarrow> binary_dilation eroded footprint out st1
            | (Raised e, st1) \<Rightarrow> (Raised e, st1)
            | (Hangs, st1) \<Rightarrow> (Hangs, st1))
       \<and> (\<forall>x. fst (binary_erosion img footprint None st) = Returned x \<longrightarrow> x = length (heap st))
       \<and> (\<exists>cs. trace (snd (binary_erosion img footprint None st)) = trace st @ cs
                \<and> (\<forall>c\<in>set cs. c_output c = length (heap st) \<and> Some (c_output c) \<noteq> out))
       \<and> (\<forall>a<length (heap st). heap (snd (binary_erosion img footprint None st)) ! a = heap st ! a)"
    unfolding binary_opening_def and_then_unfold by blast
  have 2: "\<forall>y. fst (binary_opening img footprint out st) = Returned y \<longrightarrow> y \<noteq> length (heap st)"
  proof (intro allI impI)
    fix y assume "fst (binary_opening img footprint out st) = Returned y"
    then have "and_then (operator_body Erosion True img footprint None)
             (\<lambda>x. operator_body Dilation False x footprint out) st =
             (Returned y, snd (binary_opening img footprint out st))"
      by (simp add: binary_opening_def binary_erosion_body binary_dilation_body
          prod_eq_iff)
    from two_stage_returned[OF assms this] show "y \<noteq> length (heap st)" by simp
  qed
  from 1 2 show ?thesis by blast
qed

theorem binary_opening_stages_witness:
  "binary_opening 0 (Single full3x3) (Some 0) store3x3 =
           (case binary_erosion 0 (Single full3x3) None store3x3 of
              (Returned eroded, st1) \<Rightarrow> binary_dilation eroded (Single full3x3) (Some 0) st1
            | (Raised e, st1) \<Rightarrow> (Raised e, st1)
            | (Hangs, st1) \<Rightarrow> (Hangs, st1))
   \<and> fst (binary_erosion 0 (Single full3x3) None store3x3) = Returned 1
   \<and> (\<exists>cs. trace (snd (binary_erosion 0 (Single full3x3) None store3x3)) = cs
          \<and> (\<forall>c\<in>set cs. c_output c = 1 \<and> c_output c \<noteq> 0))
   \<and> heap (snd (binary_erosion 0 (Single full3x3) None store3x3)) ! 0 = full3x3
   \<and> fst (binary_opening 0 (Single full3x3) (Some 0) store3x3) = Returned 0"
proof -
  have h: "allocated store3x3 (Some 0)" by (simp add: allocated_def store3x3_def)
  have l: "length (heap store3x3) = 1" "trace store3x3 = []" "heap store3x3 ! 0 = full3x3"
    by (simp_all add: store3x3_def)
  have r: "fst (binary_erosion 0 (Single full3x3) None store3x3) = Returned 1"
    "fst (binary_opening 0 (Single full3x3) (Some 0) store3x3) = Returned 0" by code_simp+
  from binary_opening_stages[OF h, of 0 "Single full3x3"] show ?thesis
    using r l by auto
qed

text \<open>
  Claim C5. \<open>binary_closing\<close> is \<open>binary_erosion\<close> applied to the array that
  \<open>binary_dilation\<close> returns, with the same footprint. The dilation is called without
  \<open>out\<close>: every reducer call of that stage writes the array object created at its start,
  which is not the caller's \<open>out\<close>; that object is what the stage returns, no array that
  existed before the call is changed by the stage, and the array the closing returns is
  another one.
\<close>

theorem binary_closing_stages:
  assumes "allocated st out"
  shows "binary_closing img footprint out st =
           (case binary_dilation img footprint None st of
              (Returned dilated, st1) \<Rightarrow> binary_erosion dilated footprint out st1
            | (Raised e, st1) \<Rightarrow> (Raised e, st1)
            | (Hangs, st1) \<Rightarrow> (Hangs, st1))
       \<and> (\<forall>x. fst (binary_dilation img footprint None st) = Returned x \<longrightarrow> x = length (heap st))
       \<and> (\<exists>cs. trace (snd (binary_dilation img footprint None st)) = trace st @ cs
                \<and> (\<forall>c\<in>set cs. c_output c = length (heap st) \<and> Some (c_output c) \<noteq> out))
       \<and> (\<forall>a<length (heap st). heap (snd (binary_dilation img footprint None st)) ! a = heap st ! a)
       \<and> (\<forall>y. fst (binary_closing img footprint out st) = Returned y \<longrightarrow> y \<noteq> length (heap st))"
proof -
  have "operator_body Dilation False img footprint None st =
          (fst (binary_dilation img footprint None st), snd (binary_dilation img footprint None st))"
    by (simp add: binary_dilation_body)
  from first_stage[OF assms this] have 1: "binary_closing img footprint out st =
           (case binary_dilation img footprint None st of
              (Returned dilated, st1) \<Rightarrow> binary_erosion dilated footprint out st1
            | (Raised e, st1) \<Rightarrow> (Raised e, st1)
            | (Hangs, st1) \<Rightarrow> (Hangs, st1))
       \<and> (\<forall>x. fst (binary_dilation img footprint None st) = Returned x \<longrightarrow> x = length (heap st))
       \<and> (\<exists>cs. trace (snd (binary_dilation img footprint None st)) = trace st @ cs
                \<and> (\<forall>c\<in>set cs. c_output c = length (heap st) \<and> Some (c_output c) \<noteq> out))
       \<and> (\<forall>a<length (heap st). heap (snd (binary_dilation img footprint None st)) ! a = heap st ! a)"
    unfolding binary_closing_def and_then_unfold by blast
  have 2: "\<forall>y. fst (binary_closing img footprint out st) = Returned y \<longrightarrow> y \<noteq> length (heap st)"
  proof (intro allI impI)
    fix y assume "fst (binary_closing img footprint out st) = Returned y"
    then have "and_then (operator_body Dilation False img footprint None)
             (\<lambda>x. operator_body Erosion True x footprint out) st =
             (Returned y, snd (binary_closing img footprint out st))"
      by (simp add: binary_closing_def binary_erosion_body binary_dilation_body
          prod_eq_iff)
    from two_stage_returned[OF assms this] show "y \<noteq> length (heap st)" by simp
  qed
  from 1 2 show ?thesis by blast
qed

theorem binary_closing_stages_witness:
  "binary_closing 0 (Single full3x3) (Some 0) store3x3 =
           (case binary_dilation 0 (Single full3x3) None store3x3 of
              (Returned dilated, st1) \<Rightarrow> binary_erosion dilated (Single full3x3) (Some 0) st1
            | (Raised e, st1) \<Rightarrow> (Raised e, st1)
            | (Hangs, st1) \<Rightarrow> (Hangs, st1))
   \<and> fst (binary_dilation 0 (Single full3x3) None store3x3) = Returned 1
   \<and> (\<exists>cs. trace (snd (binary_dilation 0 (Single full3x3) None store3x3)) = cs
          \<and> (\<forall>c\<in>set cs. c_output c = 1 \<and> c_output c \<noteq> 0))
   \<and> heap (snd (binary_dilation 0 (Single full3x3) None store3x3)) ! 0 = full3x3
   \<and> fst (binary_closing 0 (Single full3x3) (Some 0) store3x3) = Returned 0"
proof -
  have h: "allocated store3x3 (Some 0)" by (simp add: allocated_def store3x3_def)
  have l: "length (heap store3x3) = 1" "trace store3x3 = []" "heap store3x3 ! 0 = full3x3"
    by (simp_all add: store3x3_def)
  have r: "fst (binary_dilation 0 (Single full3x3) None store3x3) = Returned 1"
    "fst (binary_closing 0 (Single full3x3) (Some 0) store3x3) = Returned 0" by code_simp+
  from binary_closing_stages[OF h, of 0 "Single full3x3"] show ?thesis
    using r l by auto
qed

subsection \<open>Opening and closing with a single footprint\<close>

lemma two_stage_single:
  assumes "img < length (heap st)"
      and "length (shape F) = length (shape (heap st ! img))"
      and "1 \<le> prod_list (shape F)"
      and "valid_out st img out"
  shows "\<exists>st'. and_then (operator_body r1 b1 img (Single F) None)
                 (\<lambda>x. operator_body r2 b2 x (Single F) out) st
               = (Returned (final_target st out), st')
           \<and> final_target st out < length (heap st')
           \<and> heap st' ! final_target st out = pass r2 b2 F (pass r1 b1 F (heap st ! img))
           \<and> (\<exists>c1 c2. trace st' = trace st @ [c1, c2]
                 \<and> c_source c1 = img \<and> c_output c1 = length (heap st)
                 \<and> c_source_contents c1 = heap st ! img
                 \<and> c_source c2 = length (heap st) \<and> c_output c2 = final_target st out
                 \<and> c_source_contents c2 = pass r1 b1 F (heap st ! img))"
proof -
  let ?X = "heap st ! img" and ?e = "length (heap st)"
  let ?c1 = "logged r1 b1 img F ?e 1 (prepared st img None)"
  let ?st1 = "\<lparr>heap = (heap (prepared st img None))[?e := pass r1 b1 F ?X],
               trace = trace st @ [?c1]\<rparr>"
  have v: "valid_out st img None" by (simp add: valid_out_def)
  have run1: "operator_body r1 b1 img (Single F) None st = (Returned ?e, ?st1)"
    using operator_body_single[OF assms(1-3) v, of r1 b1] by simp
  have len1: "length (heap ?st1) = Suc ?e" by (simp add: length_heap_prepared)
  have e1: "heap ?st1 ! ?e = pass r1 b1 F ?X" by (simp add: length_heap_prepared)
  have old1: "\<And>a. a < ?e \<Longrightarrow> heap ?st1 ! a = heap st ! a" by (simp add: heap_prepared_old)
  have a1: "?e < length (heap ?st1)" using len1 by simp
  have a2: "length (shape F) = length (shape (heap ?st1 ! ?e))"
    unfolding e1 using assms(2) by simp
  have a4: "valid_out ?st1 ?e out"
    unfolding valid_out_def using assms(4) len1 e1 old1
    by (auto simp: valid_out_def split: option.splits)
  let ?t = "target ?st1 out"
  let ?c2 = "logged r2 b2 ?e F ?t 1 (prepared ?st1 ?e out)"
  let ?st2 = "\<lparr>heap = (heap (prepared ?st1 ?e out))[?t := pass r2 b2 F (heap ?st1 ! ?e)],
               trace = trace ?st1 @ [?c2]\<rparr>"
  have run2: "operator_body r2 b2 ?e (Single F) out ?st1 = (Returned ?t, ?st2)"
    by (rule operator_body_single[OF a1 a2 assms(3) a4])
  have t: "?t = final_target st out"
    using len1 by (simp add: target_def final_target_def split: option.splits)
  have tl: "?t < length (heap ?st2)" using target_less_prepared[OF a4] by simp
  have res: "heap ?st2 ! ?t = pass r2 b2 F (pass r1 b1 F ?X)"
    using target_less_prepared[OF a4] e1 by simp
  have c1: "c_source ?c1 = img" "c_output ?c1 = ?e" "c_source_contents ?c1 = ?X"
    using assms(1) by (simp_all add: logged_def heap_prepared_old)
  have c2: "c_source ?c2 = ?e" "c_output ?c2 = ?t"
    "c_source_contents ?c2 = pass r1 b1 F ?X"
    using a1 e1 by (simp_all add: logged_def heap_prepared_old del: length_list_update)
  have "and_then (operator_body r1 b1 img (Single F) None)
                 (\<lambda>x. operator_body r2 b2 x (Single F) out) st = (Returned ?t, ?st2)"
    by (simp only: and_then_def run1 run2 prod.case outcome.case)
  moreover have "trace ?st2 = trace st @ [?c1, ?c2]" by simp
  ultimately show ?thesis using tl res c1 c2 unfolding t by blast
qed

lemma operator_body_out_or_new:
  assumes "allocated st out" and "operator_body r b img footprint out st = (Returned y, st')"
  shows "out_or_new st out y"
  using operator_body_calls[OF assms] by (simp add: out_or_new_def target_def split: option.splits)

lemma two_stage_out_or_new:
  assumes "allocated st out"
      and "and_then (operator_body r1 b1 img footprint None)
             (\<lambda>x. operator_body r2 b2 x footprint out) st = (Returned y, st2)"
  shows "out_or_new st out y"
  using two_stage_returned[OF assms] by (simp add: out_or_new_def split: option.splits)

text \<open>
  Claim C9. With a single footprint whose rank is the image's and an \<open>out\<close> array of the
  image's shape, each of the four operators returns \<open>out\<close> itself, holding the result: one
  erosion pass with border true, one dilation pass with border false, and for opening and
  closing the two passes in their order. Without \<open>out\<close> the array returned is a new object
  holding that result. For every footprint, decomposed ones too, an operator that returns
  returns \<open>out\<close> when it was given and a new object otherwise.
\<close>

theorem out_is_filled_and_returned:
  assumes "img < length (heap st)"
      and "length (shape F) = length (shape (heap st ! img))"
      and "1 \<le> prod_list (shape F)"
      and "valid_out st img out"
  shows "(\<exists>st'. binary_erosion img (Single F) out st = (Returned (target st out), st')
              \<and> heap st' ! target st out = erode_pass True F (heap st ! img))
       \<and> (\<exists>st'. binary_dilation img (Single F) out st = (Returned (target st out), st')
              \<and> heap st' ! target st out = dilate_pass False F (heap st ! img))
       \<and> (\<exists>st'. binary_opening img (Single F) out st = (Returned (final_target st out), st')
              \<and> heap st' ! final_target st out =
                  dilate_pass False F (erode_pass True F (heap st ! img)))
       \<and> (\<exists>st'. binary_closing img (Single F) out st = (Returned (final_target st out), st')
              \<and> heap st' ! final_target st out =
                  erode_pass True F (dilate_pass False F (heap st ! img)))
       \<and> (\<forall>a. out = Some a \<longrightarrow> target st out = a \<and> final_target st out = a)
       \<and> (out = None \<longrightarrow>
            target st out = length (heap st) \<and> final_target st out = Suc (length (heap st)))
       \<and> (\<forall>footprint y st'.
             binary_erosion img footprint out st = (Returned y, st')
           \<or> binary_dilation img footprint out st = (Returned y, st')
           \<or> binary_opening img footprint out st = (Returned y, st')
           \<or> binary_closing img footprint out st = (Returned y, st')
           \<longrightarrow> out_or_new st out y)"
proof -
  let ?X = "heap st ! img"
  have t: "target st out < length (heap (prepared st img out))"
    by (rule target_less_prepared[OF assms(4)])
  have al: "allocated st out" by (rule valid_out_allocated[OF assms(4)])
  have 1: "\<exists>st'. binary_erosion img (Single F) out st = (Returned (target st out), st')
              \<and> heap st' ! target st out = erode_pass True F ?X"
    unfolding binary_erosion_body operator_body_single[OF assms] using t by (simp add: pass_def)
  have 2: "\<exists>st'. binary_dilation img (Single F) out st = (Returned (target st out), st')
              \<and> heap st' ! target st out = dilate_pass False F ?X"
    unfolding binary_dilation_body operator_body_single[OF assms] using t by (simp add: pass_def)
  have 3: "\<exists>st'. binary_opening img (Single F) out st = (Returned (final_target st out), st')
              \<and> heap st' ! final_target st out = dilate_pass False F (erode_pass True F ?X)"
    using two_stage_single[OF assms, of Erosion True Dilation False]
    unfolding binary_opening_def binary_erosion_body binary_dilation_body
    by (auto simp: pass_def)
  have 4: "\<exists>st'. binary_closing img (Single F) out st = (Returned (final_target st out), st')
              \<and> heap st' ! final_target st out = erode_pass True F (dilate_pass False F ?X)"
    using two_stage_single[OF assms, of Dilation False Erosion True]
    unfolding binary_closing_def binary_erosion_body binary_dilation_body
    by (auto simp: pass_def)
  have 5: "\<forall>a. out = Some a \<longrightarrow> target st out = a \<and> final_target st out = a"
    by (simp add: final_target_def)
  have 6: "out = None \<longrightarrow>
            target st out = length (heap st) \<and> final_target st out = Suc (length (heap st))"
    by (simp add: final_target_def)
  have 7: "\<forall>footprint y st'.
             binary_erosion img footprint out st = (Returned y, st')
           \<or> binary_dilation img footprint out st = (Returned y, st')
           \<or> binary_opening img footprint out st = (Returned y, st')
           \<or> binary_closing img footprint out st = (Returned y, st')
           \<longrightarrow> out_or_new st out y"
    unfolding binary_opening_def binary_closing_def binary_erosion_body binary_dilation_body
    using operator_body_out_or_new[OF al] two_stage_out_or_new[OF al] by blast
  from 1 2 3 4 5 6 7 show ?thesis by blast
qed

theorem out_is_filled_and_returned_witness:
  "(\<exists>st'. binary_erosion 0 (Single full3x3) (Some 1) two3x3 = (Returned 1, st')
        \<and> heap st' ! 1 = erode_pass True full3x3 full3x3)
   \<and> (\<exists>st'. binary_dilation 0 (Single full3x3) (Some 1) two3x3 = (Returned 1, st')
        \<and> heap st' ! 1 = dilate_pass False full3x3 full3x3)
   \<and> (\<exists>st'. binary_opening 0 (Single full3x3) (Some 1) two3x3 = (Returned 1, st')
        \<and> heap st' ! 1 = dilate_pass False full3x3 (erode_pass True full3x3 full3x3))
   \<and> (\<exists>st'. binary_closing 0 (Single full3x3) (Some 1) two3x3 = (Returned 1, st')
        \<and> heap st' ! 1 = erode_pass True full3x3 (dilate_pass False full3x3 full3x3))"
proof -
  have h1: "0 < length (heap two3x3)" by (simp add: two3x3_def)
  have x: "heap two3x3 ! 0 = full3x3" by (simp add: two3x3_def)
  have h2: "length (shape full3x3) = length (shape (heap two3x3 ! 0))" by (simp add: x)
  have h3: "1 \<le> prod_list (shape full3x3)" by (simp add: full3x3_def)
  have h4: "valid_out two3x3 0 (Some 1)"
    by (simp add: valid_out_def two3x3_def full3x3_def empty3x3_def)
  have t: "target two3x3 (Some 1) = 1" "final_target two3x3 (Some 1) = 1"
    by (simp_all add: final_target_def)
  from out_is_filled_and_returned[OF h1 h2 h3 h4] show ?thesis
    unfolding t x by blast
qed

text \<open>
  Claim C10. With a single footprint whose rank is the image's, \<open>binary_opening\<close> and
  \<open>binary_closing\<close> called with the image itself as \<open>out\<close> return the image object holding
  the composite of the two passes applied to the image's former contents. They make two
  reducer calls: the first reads the image and writes a new array object, the second reads
  that object, which holds the first pass's result, and writes the image. Neither call
  reads the array it writes.
\<close>

theorem opening_closing_image_as_out:
  assumes "img < length (heap st)"
      and "length (shape F) = length (shape (heap st ! img))"
      and "1 \<le> prod_list (shape F)"
  shows "(\<exists>st'. binary_opening img (Single F) (Some img) st = (Returned img, st')
              \<and> heap st' ! img = dilate_pass False F (erode_pass True F (heap st ! img))
              \<and> (\<exists>c1 c2. trace st' = trace st @ [c1, c2]
                    \<and> c_source c1 = img \<and> c_output c1 = length (heap st)
                    \<and> c_source_contents c1 = heap st ! img
                    \<and> c_source c2 = length (heap st) \<and> c_output c2 = img
                    \<and> c_source_contents c2 = erode_pass True F (heap st ! img)
                    \<and> c_source c1 \<noteq> c_output c1 \<and> c_source c2 \<noteq> c_output c2))
       \<and> (\<exists>st'. binary_closing img (Single F) (Some img) st = (Returned img, st')
              \<and> heap st' ! img = erode_pass True F (dilate_pass False F (heap st ! img))
              \<and> (\<exists>c1 c2. trace st' = trace st @ [c1, c2]
                    \<and> c_source c1 = img \<and> c_output c1 = length (heap st)
                    \<and> c_source_contents c1 = heap st ! img
                    \<and> c_source c2 = length (heap st) \<and> c_output c2 = img
                    \<and> c_source_contents c2 = dilate_pass False F (heap st ! img)
                    \<and> c_source c1 \<noteq> c_output c1 \<and> c_source c2 \<noteq> c_output c2))"
proof -
  have v: "valid_out st img (Some img)" using assms(1) by (simp add: valid_out_def)
  have t: "final_target st (Some img) = img" by (simp add: final_target_def)
  have ne: "img \<noteq> length (heap st)" using assms(1) by simp
  have 1: "\<exists>st'. binary_opening img (Single F) (Some img) st = (Returned img, st')
              \<and> heap st' ! img = dilate_pass False F (erode_pass True F (heap st ! img))
              \<and> (\<exists>c1 c2. trace st' = trace st @ [c1, c2]
                    \<and> c_source c1 = img \<and> c_output c1 = length (heap st)
                    \<and> c_source_contents c1 = heap st ! img
                    \<and> c_source c2 = length (heap st) \<and> c_output c2 = img
                    \<and> c_source_contents c2 = erode_pass True F (heap st ! img)
                    \<and> c_source c1 \<noteq> c_output c1 \<and> c_source c2 \<noteq> c_output c2)"
    using two_stage_single[OF assms v, of Erosion True Dilation False] ne
    unfolding binary_opening_def binary_erosion_body binary_dilation_body t
    by (simp add: pass_def) metis
  have 2: "\<exists>st'. binary_closing img (Single F) (Some img) st = (Returned img, st')
              \<and> heap st' ! img = erode_pass True F (dilate_pass False F (heap st ! img))
              \<and> (\<exists>c1 c2. trace st' = trace st @ [c1, c2]
                    \<and> c_source c1 = img \<and> c_output c1 = length (heap st)
                    \<and> c_source_contents c1 = heap st ! img
                    \<and> c_source c2 = length (heap st) \<and> c_output c2 = img
                    \<and> c_source_contents c2 = dilate_pass False F (heap st ! img)
                    \<and> c_source c1 \<noteq> c_output c1 \<and> c_source c2 \<noteq> c_output c2)"
    using two_stage_single[OF assms v, of Dilation False Erosion True] ne
    unfolding binary_closing_def binary_erosion_body binary_dilation_body t
    by (simp add: pass_def) metis
  from 1 2 show ?thesis by blast
qed

theorem opening_closing_image_as_out_witness:
  "(\<exists>st'. binary_opening 0 (Single full3x3) (Some 0) \<lparr>heap = [dot3x3], trace = []\<rparr> = (Returned 0, st')
        \<and> heap st' ! 0 = empty3x3
        \<and> (\<exists>c1 c2. trace st' = [c1, c2] \<and> c_source c1 = 0 \<and> c_output c1 = 1
              \<and> c_source c2 = 1 \<and> c_output c2 = 0))
   \<and> (\<exists>st'. binary_closing 0 (Single full3x3) (Some 0) \<lparr>heap = [dot3x3], trace = []\<rparr> = (Returned 0, st')
        \<and> heap st' ! 0 = full3x3
        \<and> (\<exists>c1 c2. trace st' = [c1, c2] \<and> c_source c1 = 0 \<and> c_output c1 = 1
              \<and> c_source c2 = 1 \<and> c_output c2 = 0))"
proof -
  let ?st = "\<lparr>heap = [dot3x3], trace = []\<rparr>"
  have h1: "0 < length (heap ?st)" by simp
  have h2: "length (shape full3x3) = length (shape (heap ?st ! 0))"
    by (simp add: full3x3_def dot3x3_def)
  have h3: "1 \<le> prod_list (shape full3x3)" by (simp add: full3x3_def)
  have o: "dilate_pass False full3x3 (erode_pass True full3x3 dot3x3) = empty3x3" by code_simp
  have c: "erode_pass True full3x3 (dilate_pass False full3x3 dot3x3) = full3x3" by code_simp
  from opening_closing_image_as_out[OF h1 h2 h3] show ?thesis
    by (simp add: o c) blast
qed

lemma iterate_rest_trace_grows:
  "\<exists>cs. trace (snd (iterate_rest (reducer r b) fps out st)) = trace st @ cs"
proof (induction fps arbitrary: st)
  case Nil
  then show ?case by simp
next
  case (Cons step rest)
  obtain fp n where step: "step = (fp, n)" by (cases step)
  let ?st1 = "st\<lparr>heap := heap st @ [heap st ! out]\<rparr>"
  let ?red = "reducer r b (length (heap st)) fp out n ?st1"
  have tr: "trace (snd ?red) = trace st @ [logged r b (length (heap st)) fp out n ?st1]"
    by (simp add: reducer_trace)
  show ?case
  proof (cases "fst ?red")
    case (Returned x)
    then have "iterate_rest (reducer r b) (step # rest) out st =
        iterate_rest (reducer r b) rest out (snd ?red)"
      by (cases ?red) (simp add: step and_then_def copy_def)
    then show ?thesis using Cons.IH[of "snd ?red"] tr by auto
  next
    case (Raised e)
    then have "snd (iterate_rest (reducer r b) (step # rest) out st) = snd ?red"
      by (cases ?red) (simp add: step and_then_def copy_def)
    then show ?thesis using tr by simp
  next
    case Hangs
    then have "snd (iterate_rest (reducer r b) (step # rest) out st) = snd ?red"
      by (cases ?red) (simp add: step and_then_def copy_def)
    then show ?thesis using tr by simp
  qed
qed

lemma operator_body_first_call:
  "\<exists>cs. trace (snd (operator_body r b img (Decomposed ((fp, n) # rest)) out st)) =
          trace st @ logged r b img fp (target st out) n (prepared st img out) # cs"
proof -
  let ?st1 = "prepared st img out" and ?t = "target st out"
  let ?red = "reducer r b img fp ?t n ?st1"
  have tr: "trace (snd ?red) = trace st @ [logged r b img fp ?t n ?st1]"
    by (simp add: reducer_trace)
  have run: "operator_body r b img (Decomposed ((fp, n) # rest)) out st =
        (case ?red of (Returned x, st2) \<Rightarrow> iterate_rest (reducer r b) rest ?t st2
          | (Raised e, st2) \<Rightarrow> (Raised e, st2) | (Hangs, st2) \<Rightarrow> (Hangs, st2))"
    by (simp add: operator_body_def and_then_def out_or_empty_run footprint_is_sequence_def
        iterate_binary_func_def)
  show ?thesis
  proof (cases "fst ?red")
    case (Returned x)
    then have "operator_body r b img (Decomposed ((fp, n) # rest)) out st =
        iterate_rest (reducer r b) rest ?t (snd ?red)"
      unfolding run by (cases ?red) simp
    then show ?thesis using iterate_rest_trace_grows[of r b rest ?t "snd ?red"] tr by auto
  next
    case (Raised e)
    then have "snd (operator_body r b img (Decomposed ((fp, n) # rest)) out st) = snd ?red"
      unfolding run by (cases ?red) simp
    then show ?thesis using tr by simp
  next
    case Hangs
    then have "snd (operator_body r b img (Decomposed ((fp, n) # rest)) out st) = snd ?red"
      unfolding run by (cases ?red) simp
    then show ?thesis using tr by simp
  qed
qed

lemma operator_body_empty_sequence:
  "operator_body r b img (Decomposed []) out st = (Raised IndexError, prepared st img out)"
  by (simp add: operator_body_def and_then_def out_or_empty_run footprint_is_sequence_def
      iterate_binary_func_def)

text \<open>
  Claim C7, as the code has it. An empty footprint sequence makes each of the four
  operators raise IndexError (from \<open>footprint[0]\<close>) with no reducer call made. A repeat
  count is not checked: whatever integer the first step carries, the reducer is called for
  that step with that count, on the image and the step's structure.
\<close>

theorem malformed_decomposition:
  "fst (binary_erosion img (Decomposed []) out st) = Raised IndexError
   \<and> trace (snd (binary_erosion img (Decomposed []) out st)) = trace st
   \<and> fst (binary_dilation img (Decomposed []) out st) = Raised IndexError
   \<and> trace (snd (binary_dilation img (Decomposed []) out st)) = trace st
   \<and> fst (binary_opening img (Decomposed []) out st) = Raised IndexError
   \<and> trace (snd (binary_opening img (Decomposed []) out st)) = trace st
   \<and> fst (binary_closing img (Decomposed []) out st) = Raised IndexError
   \<and> trace (snd (binary_closing img (Decomposed []) out st)) = trace st
   \<and> (\<exists>cs. trace (snd (binary_erosion img (Decomposed ((fp, n) # rest)) out st)) =
             trace st @ logged Erosion True img fp (target st out) n (prepared st img out) # cs)
   \<and> (\<exists>cs. trace (snd (binary_dilation img (Decomposed ((fp, n) # rest)) out st)) =
             trace st @ logged Dilation False img fp (target st out) n (prepared st img out) # cs)
   \<and> c_iterations (logged Erosion True img fp (target st out) n (prepared st img out)) = n
   \<and> c_iterations (logged Dilation False img fp (target st out) n (prepared st img out)) = n"
  unfolding binary_opening_def binary_closing_def binary_erosion_body binary_dilation_body
  using operator_body_first_call[of Erosion True img fp n rest out st]
    operator_body_first_call[of Dilation False img fp n rest out st]
  by (simp add: operator_body_empty_sequence and_then_def logged_def)

text \<open>
  Against claim C7 as stated: with the one step (full 3x3 structure, count 0) on the
  all-true 3x3 image, \<open>binary_erosion\<close> raises nothing. It makes one reducer call, with
  iteration count 0, and returns the new array.
\<close>

theorem malformed_decomposition_counterexample:
  "fst (binary_erosion 0 (Decomposed [(full3x3, 0)]) None store3x3) = Returned 1
   \<and> length (trace (snd (binary_erosion 0 (Decomposed [(full3x3, 0)]) None store3x3))) = 1
   \<and> c_iterations (trace (snd (binary_erosion 0 (Decomposed [(full3x3, 0)]) None store3x3)) ! 0) = 0"
  by code_simp

subsection \<open>Erosion and dilation as an adjoint pair\<close>

lemma length_vadd [simp]: "length (vadd p q) = min (length p) (length q)"
  by (simp add: vadd_def)

lemma length_vsub [simp]: "length (vsub p q) = min (length p) (length q)"
  by (simp add: vsub_def)

lemma vadd_vsub_cancel: "length p = length q \<Longrightarrow> vadd (vsub p q) q = p"
  by (induction p q rule: list_induct2) (simp_all add: vadd_def vsub_def)

lemma vsub_vadd_cancel: "length p = length q \<Longrightarrow> vsub (vadd p q) q = p"
  by (induction p q rule: list_induct2) (simp_all add: vadd_def vsub_def)

lemma length_offsets: "q \<in> set (offsets F) \<Longrightarrow> length q = length (shape F)"
  by (auto simp: offsets_def centre_def in_bounds_iff[symmetric] dest: in_bounds_length)

lemma lookup_False_in_bounds: "lookup False X p \<Longrightarrow> in_bounds (shape X) p"
  by (simp add: lookup_def split: if_splits)

lemma lookup_True_out: "\<not> in_bounds (shape X) p \<Longrightarrow> lookup True X p"
  by (simp add: lookup_def)

lemma erode_pass_cong:
  assumes "shape X = shape Y"
      and "\<And>p. in_bounds (shape X) p \<Longrightarrow>
             (\<forall>q\<in>set (offsets F). lookup b X (vadd p q))
           = (\<forall>q\<in>set (offsets F). lookup b Y (vadd p q))"
  shows "erode_pass b F X = erode_pass b F Y"
  using assms by (simp add: erode_pass_def list_all_iff in_bounds_iff cong: map_cong)

lemma dilate_pass_cong:
  assumes "shape X = shape Y"
      and "\<And>p. in_bounds (shape X) p \<Longrightarrow>
             (\<exists>q\<in>set (offsets F). lookup b X (vsub p q))
           = (\<exists>q\<in>set (offsets F). lookup b Y (vsub p q))"
  shows "dilate_pass b F X = dilate_pass b F Y"
  using assms by (simp add: dilate_pass_def list_ex_iff in_bounds_iff cong: map_cong)

lemma erode_dilate_erode:
  assumes "length (shape F) = length (shape X)"
  shows "erode_pass True F (dilate_pass False F (erode_pass True F X)) = erode_pass True F X"
proof -
  let ?s = "shape X" and ?O = "set (offsets F)"
  have "(\<forall>q\<in>?O. lookup True (dilate_pass False F (erode_pass True F X)) (vadd p q))
      = (\<forall>q\<in>?O. lookup True X (vadd p q))" if p: "in_bounds ?s p" for p
  proof
    assume L: "\<forall>q\<in>?O. lookup True (dilate_pass False F (erode_pass True F X)) (vadd p q)"
    show "\<forall>q\<in>?O. lookup True X (vadd p q)"
    proof
      fix q assume q: "q \<in> ?O"
      show "lookup True X (vadd p q)"
      proof (cases "in_bounds ?s (vadd p q)")
        case True
        from L q have "lookup True (dilate_pass False F (erode_pass True F X)) (vadd p q)"
          by blast
        with True have "\<exists>q'\<in>?O. lookup False (erode_pass True F X) (vsub (vadd p q) q')"
          by (simp add: lookup_dilate_pass)
        then obtain q' where q': "q' \<in> ?O"
          "lookup False (erode_pass True F X) (vsub (vadd p q) q')"
          by blast
        from q'(2) have "in_bounds ?s (vsub (vadd p q) q')"
          by (auto dest: lookup_False_in_bounds)
        with q'(2) have "\<forall>q''\<in>?O. lookup True X (vadd (vsub (vadd p q) q') q'')"
          by (simp add: lookup_erode_pass)
        with q'(1) have "lookup True X (vadd (vsub (vadd p q) q') q')" by blast
        moreover have "length (vadd p q) = length q'"
          using in_bounds_length[OF p] length_offsets[OF q] length_offsets[OF q'(1)] assms
          by simp
        ultimately show ?thesis by (simp add: vadd_vsub_cancel)
      next
        case False
        then show ?thesis by (rule lookup_True_out)
      qed
    qed
  next
    assume R: "\<forall>q\<in>?O. lookup True X (vadd p q)"
    show "\<forall>q\<in>?O. lookup True (dilate_pass False F (erode_pass True F X)) (vadd p q)"
    proof
      fix q assume q: "q \<in> ?O"
      have "length p = length q" using in_bounds_length[OF p] length_offsets[OF q] assms by simp
      then have "vsub (vadd p q) q = p" by (rule vsub_vadd_cancel)
      then have "lookup False (erode_pass True F X) (vsub (vadd p q) q)"
        using p R by (simp add: lookup_erode_pass)
      with q show "lookup True (dilate_pass False F (erode_pass True F X)) (vadd p q)"
        by (auto simp: lookup_dilate_pass)
    qed
  qed
  then show ?thesis by (intro erode_pass_cong) simp_all
qed

lemma dilate_erode_dilate:
  assumes "length (shape F) = length (shape X)"
  shows "dilate_pass False F (erode_pass True F (dilate_pass False F X)) = dilate_pass False F X"
proof -
  let ?s = "shape X" and ?O = "set (offsets F)"
  have "(\<exists>q\<in>?O. lookup False (erode_pass True F (dilate_pass False F X)) (vsub p q))
      = (\<exists>q\<in>?O. lookup False X (vsub p q))" if p: "in_bounds ?s p" for p
  proof
    assume "\<exists>q\<in>?O. lookup False (erode_pass True F (dilate_pass False F X)) (vsub p q)"
    then obtain q where q: "q \<in> ?O"
      "lookup False (erode_pass True F (dilate_pass False F X)) (vsub p q)" by blast
    from q(2) have "in_bounds ?s (vsub p q)" by (auto dest: lookup_False_in_bounds)
    with q have "lookup True (dilate_pass False F X) (vadd (vsub p q) q)"
      by (simp add: lookup_erode_pass)
    moreover have "length p = length q"
      using in_bounds_length[OF p] length_offsets[OF q(1)] assms by simp
    ultimately have "lookup True (dilate_pass False F X) p" by (simp add: vadd_vsub_cancel)
    then show "\<exists>q\<in>?O. lookup False X (vsub p q)" using p by (simp add: lookup_dilate_pass)
  next
    assume "\<exists>q\<in>?O. lookup False X (vsub p q)"
    then obtain q where q: "q \<in> ?O" "lookup False X (vsub p q)" by blast
    from q(2) have ib: "in_bounds ?s (vsub p q)" by (rule lookup_False_in_bounds)
    have "lookup True (dilate_pass False F X) (vadd (vsub p q) q')" if q': "q' \<in> ?O" for q'
    proof (cases "in_bounds ?s (vadd (vsub p q) q')")
      case True
      have "length (vsub p q) = length q'"
        using in_bounds_length[OF ib] length_offsets[OF q'] assms by simp
      then have "vsub (vadd (vsub p q) q') q' = vsub p q" by (rule vsub_vadd_cancel)
      with q(2) have "lookup False X (vsub (vadd (vsub p q) q') q')" by simp
      with q' have "\<exists>q''\<in>?O. lookup False X (vsub (vadd (vsub p q) q') q'')" by blast
      with True show ?thesis by (simp add: lookup_dilate_pass)
    next
      case False
      then show ?thesis by (simp add: lookup_True_out)
    qed
    with ib have "lookup False (erode_pass True F (dilate_pass False F X)) (vsub p q)"
      by (simp add: lookup_erode_pass)
    with q(1) show "\<exists>q\<in>?O. lookup False (erode_pass True F (dilate_pass False F X)) (vsub p q)"
      by blast
  qed
  then show ?thesis by (intro dilate_pass_cong) simp_all
qed

text \<open>
  Claim C8, for a single footprint. With a single footprint whose rank is the image's,
  opening the result of an opening gives the same array contents again, and closing the
  result of a closing gives the same array contents again.
\<close>

theorem opening_closing_idempotent:
  assumes "img < length (heap st)"
      and "length (shape F) = length (shape (heap st ! img))"
      and "1 \<le> prod_list (shape F)"
  shows "(\<exists>a st1 b st2.
            binary_opening img (Single F) None st = (Returned a, st1)
          \<and> binary_opening a (Single F) None st1 = (Returned b, st2)
          \<and> heap st2 ! b = heap st1 ! a)
       \<and> (\<exists>a st1 b st2.
            binary_closing img (Single F) None st = (Returned a, st1)
          \<and> binary_closing a (Single F) None st1 = (Returned b, st2)
          \<and> heap st2 ! b = heap st1 ! a)"
proof -
  let ?X = "heap st ! img"
  have v: "\<And>s i. valid_out s i None" by (simp add: valid_out_def)
  have twice: "\<exists>a st1 b st2.
        and_then (operator_body r1 b1 img (Single F) None)
          (\<lambda>x. operator_body r2 b2 x (Single F) None) st = (Returned a, st1)
      \<and> and_then (operator_body r1 b1 a (Single F) None)
          (\<lambda>x. operator_body r2 b2 x (Single F) None) st1 = (Returned b, st2)
      \<and> heap st1 ! a = pass r2 b2 F (pass r1 b1 F ?X)
      \<and> heap st2 ! b = pass r2 b2 F (pass r1 b1 F (pass r2 b2 F (pass r1 b1 F ?X)))"
    for r1 b1 r2 b2
  proof -
    from two_stage_single[OF assms v, of r1 b1 r2 b2] obtain st1 where 1:
      "and_then (operator_body r1 b1 img (Single F) None)
          (\<lambda>x. operator_body r2 b2 x (Single F) None) st = (Returned (final_target st None), st1)"
      "final_target st None < length (heap st1)"
      "heap st1 ! final_target st None = pass r2 b2 F (pass r1 b1 F ?X)"
      by blast
    let ?a = "final_target st None"
    have rank: "length (shape F) = length (shape (heap st1 ! ?a))"
      using assms(2) by (simp add: 1(3))
    from two_stage_single[OF 1(2) rank assms(3) v, of r1 b1 r2 b2] obtain st2 where 2:
      "and_then (operator_body r1 b1 ?a (Single F) None)
          (\<lambda>x. operator_body r2 b2 x (Single F) None) st1 = (Returned (final_target st1 None), st2)"
      "heap st2 ! final_target st1 None = pass r2 b2 F (pass r1 b1 F (heap st1 ! ?a))"
      by blast
    from 1 2 show ?thesis by (metis (no_types))
  qed
  have ede: "erode_pass True F (dilate_pass False F (erode_pass True F ?X)) = erode_pass True F ?X"
    by (rule erode_dilate_erode[OF assms(2)])
  have ded: "dilate_pass False F (erode_pass True F (dilate_pass False F ?X)) = dilate_pass False F ?X"
    by (rule dilate_erode_dilate[OF assms(2)])
  have 1: "\<exists>a st1 b st2.
            binary_opening img (Single F) None st = (Returned a, st1)
          \<and> binary_opening a (Single F) None st1 = (Returned b, st2)
          \<and> heap st2 ! b = heap st1 ! a"
    using twice[of Erosion True Dilation False]
    unfolding binary_opening_def binary_erosion_body binary_dilation_body
    by (simp add: pass_def ede) metis
  have 2: "\<exists>a st1 b st2.
            binary_closing img (Single F) None st = (Returned a, st1)
          \<and> binary_closing a (Single F) None st1 = (Returned b, st2)
          \<and> heap st2 ! b = heap st1 ! a"
    using twice[of Dilation False Erosion True]
    unfolding binary_closing_def binary_erosion_body binary_dilation_body
    by (simp add: pass_def ded) metis
  from 1 2 show ?thesis by blast
qed

theorem opening_closing_idempotent_witness:
  "(\<exists>a st1 b st2.
      binary_opening 0 (Single full3x3) None \<lparr>heap = [dot3x3], trace = []\<rparr> = (Returned a, st1)
    \<and> binary_opening a (Single full3x3) None st1 = (Returned b, st2)
    \<and> heap st2 ! b = heap st1 ! a)
   \<and> (\<exists>a st1 b st2.
      binary_closing 0 (Single full3x3) None \<lparr>heap = [dot3x3], trace = []\<rparr> = (Returned a, st1)
    \<and> binary_closing a (Single full3x3) None st1 = (Returned b, st2)
    \<and> heap st2 ! b = heap st1 ! a)"
proof -
  let ?st = "\<lparr>heap = [dot3x3], trace = []\<rparr>"
  have h1: "0 < length (heap ?st)" by simp
  have h2: "length (shape full3x3) = length (shape (heap ?st ! 0))"
    by (simp add: full3x3_def dot3x3_def)
  have h3: "1 \<le> prod_list (shape full3x3)" by (simp add: full3x3_def)
  from opening_closing_idempotent[OF h1 h2 h3] show ?thesis .
qed

text \<open>
  Against claim C8 as stated: on the image \<open>[F, F, T, T]\<close> with the steps
  \<open>([F, T, T], 1), ([T, F, F], 1)\<close> the opening is \<open>[T, F, T, F]\<close>, and the opening of that
  is \<open>[T, F, F, F]\<close>.
\<close>

theorem opening_idempotent_counterexample:
  "fst (binary_opening 0 skew_steps None row4_store) = Returned 3
   \<and> heap (snd (binary_opening 0 skew_steps None row4_store)) ! 3
        = \<lparr>shape = [4], data = [True, False, True, False]\<rparr>
   \<and> fst (binary_opening 3 skew_steps None (snd (binary_opening 0 skew_steps None row4_store)))
        = Returned 7
   \<and> heap (snd (binary_opening 3 skew_steps None
                  (snd (binary_opening 0 skew_steps None row4_store)))) ! 7
        = \<lparr>shape = [4], data = [True, False, False, False]\<rparr>"
  by code_simp

subsection \<open>The value a decomposed footprint computes\<close>

lemma shape_chain [simp]: "shape (chain r b fps X) = shape X"
proof (induction fps arbitrary: X)
  case Nil
  then show ?case by (simp add: chain_def)
next
  case (Cons step fps)
  obtain fp n where "step = (fp, n)" by (cases step)
  then show ?case using Cons[of "(pass r b fp ^^ nat n) X"] by (simp add: chain_def)
qed

lemma chain_Cons: "chain r b ((fp, n) # fps) X = chain r b fps ((pass r b fp ^^ nat n) X)"
  by (simp add: chain_def)

lemma valid_steps_Cons:
  "valid_steps s ((fp, n) # fps) \<longleftrightarrow>
     length (shape fp) = length s \<and> 1 \<le> prod_list (shape fp) \<and> 1 \<le> n \<and> valid_steps s fps"
  by (simp add: valid_steps_def)

lemma iterate_rest_value:
  assumes "out < length (heap st)"
      and "valid_steps (shape (heap st ! out)) fps"
  shows "\<exists>st'. iterate_rest (reducer r b) fps out st = (Returned out, st')
           \<and> out < length (heap st')
           \<and> heap st' ! out = chain r b fps (heap st ! out)"
  using assms
proof (induction fps arbitrary: st)
  case Nil
  then show ?case by (simp add: chain_def)
next
  case (Cons step rest)
  obtain fp n where step: "step = (fp, n)" by (cases step)
  let ?Y = "heap st ! out" and ?c = "length (heap st)"
  let ?st1 = "st\<lparr>heap := heap st @ [heap st ! out]\<rparr>"
  from Cons.prems(2) have v: "length (shape fp) = length (shape ?Y)" "1 \<le> prod_list (shape fp)"
    "1 \<le> n" "valid_steps (shape ?Y) rest"
    by (simp_all add: step valid_steps_Cons)
  have c: "heap ?st1 ! ?c = ?Y" by simp
  have o: "heap ?st1 ! out = ?Y" using Cons.prems(1) by (simp add: nth_append)
  have 1: "length (shape fp) = length (shape (heap ?st1 ! ?c))" using v(1) by (simp only: c)
  have 2: "shape (heap ?st1 ! out) = shape (heap ?st1 ! ?c)" by (simp only: c o)
  let ?st2 = "\<lparr>heap = (heap ?st1)[out := (pass r b fp ^^ nat n) (heap ?st1 ! ?c)],
               trace = trace ?st1 @ [logged r b ?c fp out n ?st1]\<rparr>"
  have red: "reducer r b ?c fp out n ?st1 = (Returned out, ?st2)"
    by (rule reducer_returns[OF 1 v(2) 2 v(3)])
  have len2: "out < length (heap ?st2)" using Cons.prems(1) by simp
  have out2: "heap ?st2 ! out = (pass r b fp ^^ nat n) ?Y"
    using Cons.prems(1) by (simp only: c) simp
  have "valid_steps (shape (heap ?st2 ! out)) rest" using v(4) by (simp only: out2) simp
  from Cons.IH[OF len2 this] obtain st' where
    "iterate_rest (reducer r b) rest out ?st2 = (Returned out, st')"
    "out < length (heap st')"
    "heap st' ! out = chain r b rest (heap ?st2 ! out)"
    by blast
  moreover have "iterate_rest (reducer r b) (step # rest) out st =
      iterate_rest (reducer r b) rest out ?st2"
    by (simp add: step and_then_def copy_def red)
  ultimately show ?case by (simp only: out2 step chain_Cons) blast
qed

lemma operator_body_decomposed_value:
  assumes "img < length (heap st)"
      and "valid_steps (shape (heap st ! img)) fps"
      and "fps \<noteq> []"
      and "valid_out st img out"
  shows "\<exists>st'. operator_body r b img (Decomposed fps) out st = (Returned (target st out), st')
           \<and> heap st' ! target st out = chain r b fps (heap st ! img)"
proof -
  obtain fp n rest where fps: "fps = (fp, n) # rest"
    using assms(3) by (cases fps) auto
  let ?X = "heap st ! img" and ?t = "target st out" and ?st1 = "prepared st img out"
  from assms(2) have v: "length (shape fp) = length (shape ?X)" "1 \<le> prod_list (shape fp)"
    "1 \<le> n" "valid_steps (shape ?X) rest"
    by (simp_all add: fps valid_steps_Cons)
  have x: "heap ?st1 ! img = ?X" using assms(1) by (simp add: heap_prepared_old)
  have t: "?t < length (heap ?st1)" by (rule target_less_prepared[OF assms(4)])
  have 1: "length (shape fp) = length (shape (heap ?st1 ! img))" using v(1) by (simp only: x)
  have 2: "shape (heap ?st1 ! ?t) = shape (heap ?st1 ! img)"
    using shape_target_prepared[OF assms(4)] by (simp only: x)
  let ?st2 = "\<lparr>heap = (heap ?st1)[?t := (pass r b fp ^^ nat n) (heap ?st1 ! img)],
               trace = trace ?st1 @ [logged r b img fp ?t n ?st1]\<rparr>"
  have red: "reducer r b img fp ?t n ?st1 = (Returned ?t, ?st2)"
    by (rule reducer_returns[OF 1 v(2) 2 v(3)])
  have len2: "?t < length (heap ?st2)" using t by simp
  have out2: "heap ?st2 ! ?t = (pass r b fp ^^ nat n) ?X" using t by (simp only: x) simp
  have "valid_steps (shape (heap ?st2 ! ?t)) rest" using v(4) by (simp only: out2) simp
  from iterate_rest_value[OF len2 this, of r b] obtain st' where
    "iterate_rest (reducer r b) rest ?t ?st2 = (Returned ?t, st')"
    "heap st' ! ?t = chain r b rest (heap ?st2 ! ?t)"
    by blast
  moreover have "operator_body r b img (Decomposed fps) out st =
      iterate_rest (reducer r b) rest ?t ?st2"
    by (simp add: operator_body_def and_then_def out_or_empty_run footprint_is_sequence_def
        iterate_binary_func_def fps red)
  ultimately show ?thesis by (simp only: out2 fps chain_Cons) blast
qed

subsection \<open>The sequence of passes against the composite footprint\<close>

lemma erode_pass_by: "erode_pass b F = erode_by b (offsets F)"
  by (intro ext) (simp add: erode_pass_def erode_by_def)

lemma shape_erode_by [simp]: "shape (erode_by b N X) = shape X"
  by (simp add: erode_by_def)

lemma pixel_erode_by:
  "in_bounds (shape X) p \<Longrightarrow> pixel (erode_by b N X) p = (\<forall>q\<in>set N. lookup b X (vadd p q))"
  by (simp add: erode_by_def pixel_tabulate list_all_iff)

lemma lookup_erode_by:
  "lookup b' (erode_by b N X) p =
     (if in_bounds (shape X) p then (\<forall>q\<in>set N. lookup b X (vadd p q)) else b')"
  by (simp add: lookup_def pixel_erode_by)

lemma erode_by_set_cong: "set N = set M \<Longrightarrow> erode_by b N X = erode_by b M X"
  by (simp add: erode_by_def list_all_iff)

lemma foldl_replicate_funpow: "foldl (\<lambda>Y a. f a Y) X (replicate n a) = (f a ^^ n) X"
  by (induction n arbitrary: X) (simp_all add: funpow_swap1)

lemma chain_expand:
  "chain Erosion True fps X = foldl (\<lambda>Y N. erode_by True N Y) X (expand fps)"
proof (induction fps arbitrary: X)
  case Nil
  then show ?case by (simp add: chain_def expand_def)
next
  case (Cons step fps)
  obtain fp n where step: "step = (fp, n)" by (cases step)
  have "expand (step # fps) = replicate (nat n) (offsets fp) @ expand fps"
    by (simp add: expand_def step)
  then show ?case
    using Cons[of "(pass Erosion True fp ^^ nat n) X"]
    by (simp add: step chain_Cons foldl_replicate_funpow pass_def erode_pass_by)
qed

lemma shape_foldl_erode_by [simp]:
  "shape (foldl (\<lambda>Y N. erode_by b N Y) X Ns) = shape X"
  by (induction Ns arbitrary: X) simp_all

lemma vadd_rotate: "vadd p (vadd t q) = vadd (vadd p q) t"
proof (induction p arbitrary: t q)
  case Nil
  then show ?case by (simp add: vadd_def)
next
  case (Cons x p)
  show ?case
  proof (cases t)
    case Nil
    then show ?thesis by (simp add: vadd_def)
  next
    case t: (Cons y t')
    show ?thesis
    proof (cases q)
      case Nil
      then show ?thesis by (simp add: vadd_def)
    next
      case (Cons z q')
      with t Cons.IH[of t' q'] show ?thesis by (simp add: vadd_def)
    qed
  qed
qed

lemma vadd_zero: "length p = n \<Longrightarrow> vadd p (replicate n 0) = p"
  by (induction p arbitrary: n) (auto simp: vadd_def)

lemma set_minkowski: "set (minkowski A B) = {vadd a b |a b. a \<in> set A \<and> b \<in> set B}"
  by (auto simp: minkowski_def)

lemma stays_inside_in_bounds: "stays_inside s Ns p \<Longrightarrow> in_bounds s p"
  by (cases Ns) simp_all

lemma sequence_vs_composite:
  assumes "in_bounds (shape X) p"
  shows "(pixel (erode_by True (foldl minkowski [replicate (length (shape X)) 0] Ns) X) p
            \<longrightarrow> pixel (foldl (\<lambda>Y N. erode_by True N Y) X Ns) p)
       \<and> (stays_inside (shape X) (rev Ns) p
            \<longrightarrow> pixel (foldl (\<lambda>Y N. erode_by True N Y) X Ns) p
              = pixel (erode_by True (foldl minkowski [replicate (length (shape X)) 0] Ns) X) p)"
  using assms
proof (induction Ns arbitrary: p rule: rev_induct)
  case Nil
  have "vadd p (replicate (length (shape X)) 0) = p"
    using in_bounds_length[OF Nil] by (rule vadd_zero)
  then show ?case using Nil by (simp add: pixel_erode_by lookup_def)
next
  case (snoc N Ns)
  let ?s = "shape X"
  let ?M = "foldl minkowski [replicate (length ?s) 0] Ns"
  let ?S = "foldl (\<lambda>Y N. erode_by True N Y) X Ns"
  have seq: "pixel (foldl (\<lambda>Y N. erode_by True N Y) X (Ns @ [N])) p
      = (\<forall>q\<in>set N. lookup True ?S (vadd p q))"
    using snoc.prems by (simp add: pixel_erode_by)
  have comp: "pixel (erode_by True (foldl minkowski [replicate (length ?s) 0] (Ns @ [N])) X) p
      = (\<forall>q\<in>set N. \<forall>t\<in>set ?M. lookup True X (vadd (vadd p q) t))"
  proof -
    have "pixel (erode_by True (foldl minkowski [replicate (length ?s) 0] (Ns @ [N])) X) p
        = (\<forall>u\<in>set (minkowski ?M N). lookup True X (vadd p u))"
      using snoc.prems by (simp add: pixel_erode_by)
    also have "\<dots> = (\<forall>q\<in>set N. \<forall>t\<in>set ?M. lookup True X (vadd p (vadd t q)))"
      unfolding set_minkowski by blast
    finally show ?thesis by (simp only: vadd_rotate)
  qed
  have part: "pixel (erode_by True ?M X) (vadd p q) = (\<forall>t\<in>set ?M. lookup True X (vadd (vadd p q) t))"
    if "in_bounds ?s (vadd p q)" for q
    using that by (simp add: pixel_erode_by)
  show ?case
  proof (intro conjI impI)
    assume c: "pixel (erode_by True (foldl minkowski [replicate (length ?s) 0] (Ns @ [N])) X) p"
    have "lookup True ?S (vadd p q)" if q: "q \<in> set N" for q
    proof (cases "in_bounds ?s (vadd p q)")
      case True
      have "pixel (erode_by True ?M X) (vadd p q)" using c q by (simp only: comp part[OF True]) blast
      with snoc.IH[OF True] have "pixel ?S (vadd p q)" by blast
      with True show ?thesis by (simp add: lookup_def)
    next
      case False
      then show ?thesis by (simp add: lookup_def)
    qed
    then show "pixel (foldl (\<lambda>Y N. erode_by True N Y) X (Ns @ [N])) p" by (simp only: seq) blast
  next
    assume "stays_inside ?s (rev (Ns @ [N])) p"
    then have in': "\<And>q. q \<in> set N \<Longrightarrow> stays_inside ?s (rev Ns) (vadd p q)"
      by (simp add: list_all_iff)
    have "lookup True ?S (vadd p q) = (\<forall>t\<in>set ?M. lookup True X (vadd (vadd p q) t))"
      if q: "q \<in> set N" for q
    proof -
      have ib: "in_bounds ?s (vadd p q)" by (rule stays_inside_in_bounds[OF in'[OF q]])
      from snoc.IH[OF ib] in'[OF q] have "pixel ?S (vadd p q) = pixel (erode_by True ?M X) (vadd p q)"
        by blast
      then show ?thesis using ib by (simp add: lookup_def part[OF ib])
    qed
    then show "pixel (foldl (\<lambda>Y N. erode_by True N Y) X (Ns @ [N])) p
        = pixel (erode_by True (foldl minkowski [replicate (length ?s) 0] (Ns @ [N])) X) p"
      by (simp only: seq comp) blast
  qed
qed

text \<open>
  Claim C6, as the code has it. For a decomposed footprint whose steps the reducer accepts
  and whose counts are at least 1, \<open>binary_erosion\<close> returns the array obtained by applying
  each step's erosion pass its count of times, in order, every pass with border true. Take
  a single footprint whose offsets are the Minkowski sum of all those steps. Wherever
  the erosion with that composite footprint is true, the erosion with the sequence is true
  as well; and the two agree at every position from which all chains of neighbour steps
  stay inside the image. Near the border they can differ, because each pass of the
  sequence treats the outside as true on its own.
\<close>

theorem decomposed_erosion_against_composite:
  assumes "img < length (heap st)"
      and "fps \<noteq> []"
      and "valid_steps (shape (heap st ! img)) fps"
      and "length (shape C) = length (shape (heap st ! img))"
      and "1 \<le> prod_list (shape C)"
      and "set (offsets C) = set (composite_offsets (length (shape (heap st ! img))) fps)"
  shows "\<exists>a st1 b st2.
           binary_erosion img (Decomposed fps) None st = (Returned a, st1)
         \<and> binary_erosion img (Single C) None st = (Returned b, st2)
         \<and> heap st1 ! a = chain Erosion True fps (heap st ! img)
         \<and> shape (heap st1 ! a) = shape (heap st ! img)
         \<and> shape (heap st2 ! b) = shape (heap st ! img)
         \<and> (\<forall>p. in_bounds (shape (heap st ! img)) p \<longrightarrow>
               (pixel (heap st2 ! b) p \<longrightarrow> pixel (heap st1 ! a) p)
             \<and> (stays_inside (shape (heap st ! img)) (rev (expand fps)) p \<longrightarrow>
                  pixel (heap st1 ! a) p = pixel (heap st2 ! b) p))"
proof -
  let ?X = "heap st ! img"
  let ?A = "chain Erosion True fps ?X" and ?B = "erode_pass True C ?X"
  have v: "valid_out st img None" by (simp add: valid_out_def)
  from operator_body_decomposed_value[OF assms(1,3,2) v, of Erosion True] obtain st1 where
    1: "binary_erosion img (Decomposed fps) None st = (Returned (target st None), st1)"
       "heap st1 ! target st None = ?A"
    unfolding binary_erosion_body by blast
  have t: "target st None < length (heap (prepared st img None))"
    by (rule target_less_prepared[OF v])
  have "\<exists>st2. binary_erosion img (Single C) None st = (Returned (target st None), st2)
            \<and> heap st2 ! target st None = ?B"
    unfolding binary_erosion_body operator_body_single[OF assms(1,4,5) v]
    using t by (simp add: pass_def)
  then obtain st2 where
    2: "binary_erosion img (Single C) None st = (Returned (target st None), st2)"
       "heap st2 ! target st None = ?B"
    by blast
  have A: "?A = foldl (\<lambda>Y N. erode_by True N Y) ?X (expand fps)" by (rule chain_expand)
  have B: "?B = erode_by True (foldl minkowski [replicate (length (shape ?X)) 0] (expand fps)) ?X"
    unfolding erode_pass_by
    by (rule erode_by_set_cong) (simp add: assms(6) composite_offsets_def)
  have px: "\<forall>p. in_bounds (shape ?X) p \<longrightarrow>
               (pixel ?B p \<longrightarrow> pixel ?A p)
             \<and> (stays_inside (shape ?X) (rev (expand fps)) p \<longrightarrow> pixel ?A p = pixel ?B p)"
    unfolding A B using sequence_vs_composite[of ?X _ "expand fps"] by blast
  have sh: "shape ?A = shape ?X" "shape ?B = shape ?X" by simp_all
  show ?thesis
    apply (rule exI[of _ "target st None"], rule exI[of _ st1])
    apply (rule exI[of _ "target st None"], rule exI[of _ st2])
    using 1 2 px sh by simp
qed

theorem decomposed_erosion_against_composite_witness:
  "\<exists>a st1 b st2.
      binary_erosion 0 (Decomposed [(line3, 1), (line3, 1)]) None \<lparr>heap = [row5], trace = []\<rparr>
        = (Returned a, st1)
    \<and> binary_erosion 0 (Single line5) None \<lparr>heap = [row5], trace = []\<rparr> = (Returned b, st2)
    \<and> heap st1 ! a = chain Erosion True [(line3, 1), (line3, 1)] row5
    \<and> (pixel (heap st2 ! b) [1] \<longrightarrow> pixel (heap st1 ! a) [1])
    \<and> pixel (heap st1 ! a) [2] = pixel (heap st2 ! b) [2]"
proof -
  let ?st = "\<lparr>heap = [row5], trace = []\<rparr>"
  let ?fps = "[(line3, 1::int), (line3, 1)]"
  have x: "heap ?st ! 0 = row5" by simp
  have s: "shape row5 = [5]" by (simp add: row5_def)
  have h1: "0 < length (heap ?st)" by simp
  have h2: "?fps \<noteq> []" by simp
  have h3: "valid_steps (shape (heap ?st ! 0)) ?fps"
    by (simp add: valid_steps_def line3_def row5_def)
  have h4: "length (shape line5) = length (shape (heap ?st ! 0))"
    by (simp add: line5_def row5_def)
  have h5: "1 \<le> prod_list (shape line5)" by (simp add: line5_def)
  have h6: "set (offsets line5) = set (composite_offsets (length (shape (heap ?st ! 0))) ?fps)"
    by code_simp
  have i1: "in_bounds (shape (heap ?st ! 0)) [1]" "in_bounds (shape (heap ?st ! 0)) [2]"
    by (simp_all add: s)
  have i2: "stays_inside (shape (heap ?st ! 0)) (rev (expand ?fps)) [2]" by code_simp
  from decomposed_erosion_against_composite[OF h1 h2 h3 h4 h5 h6] i1 i2
  show ?thesis unfolding x by (metis (no_types))
qed

text \<open>
  Against claim C6 as stated: the steps \<open>([T, F, F], 1), ([F, F, T], 1)\<close> have the offsets
  \<open>-1\<close> and \<open>+1\<close>, whose Minkowski sum is the offset \<open>0\<close> of the footprint \<open>[F, T, F]\<close>. On
  the image \<open>[F, F]\<close> the sequence gives \<open>[F, T]\<close>: the second pass at position 1 looks at
  position 2, outside the image, and takes true. The composite footprint gives \<open>[F, F]\<close>.
\<close>

theorem decomposed_erosion_counterexample:
  "set (offsets centre3) = set (composite_offsets 1 [(left3, 1), (right3, 1)])
   \<and> fst (binary_erosion 0 (Decomposed [(left3, 1), (right3, 1)]) None \<lparr>heap = [row2], trace = []\<rparr>)
       = Returned 1
   \<and> heap (snd (binary_erosion 0 (Decomposed [(left3, 1), (right3, 1)]) None
                  \<lparr>heap = [row2], trace = []\<rparr>)) ! 1
       = \<lparr>shape = [2], data = [False, True]\<rparr>
   \<and> fst (binary_erosion 0 (Single centre3) None \<lparr>heap = [row2], trace = []\<rparr>) = Returned 1
   \<and> heap (snd (binary_erosion 0 (Single centre3) None \<lparr>heap = [row2], trace = []\<rparr>)) ! 1
       = \<lparr>shape = [2], data = [False, False]\<rparr>"
  by code_simp

end
